theory Spec2Isabelle
  imports Main "HOL-Library.Word"
begin

section \<open>Strings and numbers as the Go code reads them\<close>

text \<open>
  Go strings are byte sequences; \<open>string\<close> (a \<open>char list\<close>) is the same thing.
  \<open>Contains s sub\<close> is \<open>strings.Contains(s, sub)\<close>: \<open>sub\<close> occurs in \<open>s\<close> as a
  contiguous run of bytes.
\<close>

primrec Contains :: "string \<Rightarrow> string \<Rightarrow> bool" where
  "Contains [] sub = (sub = [])"
| "Contains (c # cs) sub = (take (length sub) (c # cs) = sub \<or> Contains cs sub)"

definition isDigit :: "char \<Rightarrow> bool" where
  "isDigit c = (c \<in> set ''0123456789'')"

definition digitVal :: "char \<Rightarrow> nat" where
  "digitVal c = of_char c - 48"

text \<open>The number a string of decimal digits denotes, most significant digit first.\<close>

fun decimalFrom :: "nat \<Rightarrow> string \<Rightarrow> nat" where
  "decimalFrom n [] = n"
| "decimalFrom n (c # cs) = decimalFrom (n * 10 + digitVal c) cs"

definition decimal :: "string \<Rightarrow> nat" where
  "decimal s = decimalFrom 0 s"

definition isDecimal :: "string \<Rightarrow> bool" where
  "isDecimal s = (s \<noteq> [] \<and> list_all isDigit s)"

text \<open>
  \<open>strconv.ParseUint(s, 10, 64)\<close> of the Go standard library, by its contract: a
  non-empty string of decimal digits (no sign, no underscore, since the base is given)
  whose value fits in 64 bits parses to that value; anything else is an error
  (\<open>None\<close>): a syntax error, or a range error at \<open>2 ^ 64\<close> and above.
\<close>

definition ParseUint :: "string \<Rightarrow> 64 word option" where
  "ParseUint s =
     (if isDecimal s \<and> decimal s < 2 ^ 64 then Some (word_of_nat (decimal s)) else None)"

section \<open>parseGoMemLimit\<close>

text \<open>
  The multiplier \<open>m\<close> chosen by the \<open>switch s[len(s)-2]\<close>; \<open>None\<close> is the
  \<open>default: return 0\<close> branch.
\<close>

definition unitMultiplier :: "char \<Rightarrow> 64 word option" where
  "unitMultiplier c =
     (if c = CHR ''K'' then Some 1024
      else if c = CHR ''M'' then Some (1024 * 1024)
      else if c = CHR ''G'' then Some (1024 * 1024 * 1024)
      else None)"

text \<open>
  \<open>parseGoMemLimit\<close> of vulncheck_scan.go. The result is a \<open>uint64\<close>, and \<open>v * m\<close>
  is the wrapping product of two \<open>uint64\<close>s.
\<close>

definition parseGoMemLimit :: "string \<Rightarrow> 64 word" where
  "parseGoMemLimit s =
     (if length s < 2 then 0
      else if s ! (length s - 1) = CHR ''i'' then
        (case unitMultiplier (s ! (length s - 2)) of
           None \<Rightarrow> 0
         | Some m \<Rightarrow>
             (case ParseUint (take (length s - 2) s) of
                None \<Rightarrow> 0
              | Some v \<Rightarrow> v * m))
      else
        (case ParseUint s of
           None \<Rightarrow> 0
         | Some v \<Rightarrow> v * 1))"

text \<open>
  The inputs the function is written for: a decimal number, alone or followed by
  \<open>Ki\<close>, \<open>Mi\<close> or \<open>Gi\<close>. Every other string is malformed.
\<close>

definition wellFormed :: "string \<Rightarrow> bool" where
  "wellFormed s =
     (isDecimal s \<or>
      (2 \<le> length s \<and> drop (length s - 2) s \<in> {''Ki'', ''Mi'', ''Gi''}
         \<and> isDecimal (take (length s - 2) s)))"


section \<open>Errors\<close>

text \<open>The sentinel errors of package \<open>derrors\<close> that the worker wraps.\<close>

datatype derror =
    InvalidArgument
  | ProxyError
  | BigQueryError
  | ScanModulePanicError
  | ScanModuleVulncheckError
  | ScanModuleVulncheckDBConnectionError
  | ScanModuleMemoryLimitExceeded
  | ScanModuleLoadPackagesError
  | ScanModuleLoadPackagesNoGoModError
  | ScanModuleLoadPackagesNoGoSumError
  | ScanModuleLoadPackagesNoRequiredModuleError
  | ScanModuleLoadPackagesMissingGoSumEntryError

text \<open>
  A Go \<open>error\<close> value, by the way the worker builds it:
  \<^item> \<open>ErrText s\<close>: an error with message \<open>s\<close> that wraps nothing
    (\<open>errors.New\<close>, \<open>fmt.Errorf\<close> without \<open>%w\<close>, an error of a library);
  \<^item> \<open>ErrSentinel d\<close>: the sentinel \<open>d\<close> itself;
  \<^item> \<open>ErrWrap e d\<close>: \<open>fmt.Errorf("%v: %w", e, d)\<close>, the text of \<open>e\<close> wrapping \<open>d\<close>;
  \<^item> \<open>ErrWrapHead d s\<close>: \<open>fmt.Errorf("%w: %v", d, s)\<close>;
  \<^item> \<open>ErrPrefix p e\<close>: what \<open>derrors.Wrap\<close> makes of a non-nil \<open>e\<close>.
  A \<open>nil\<close> error is \<open>None\<close> of \<open>go_error option\<close>.
\<close>

datatype go_error =
    ErrText string
  | ErrSentinel derror
  | ErrWrap go_error derror
  | ErrWrapHead derror string
  | ErrPrefix string go_error

text \<open>
  \<open>err.Error()\<close>. The messages of the sentinels are declared in package \<open>derrors\<close>,
  which is not among the sources: they are the parameter \<open>T\<close>.
\<close>

fun Error_text :: "(derror \<Rightarrow> string) \<Rightarrow> go_error \<Rightarrow> string" where
  "Error_text T (ErrText s) = s"
| "Error_text T (ErrSentinel d) = T d"
| "Error_text T (ErrWrap e d) = Error_text T e @ '': '' @ T d"
| "Error_text T (ErrWrapHead d s) = T d @ '': '' @ s"
| "Error_text T (ErrPrefix p e) = p @ '': '' @ Error_text T e"

text \<open>\<open>errors.Is(err, d)\<close> for a sentinel \<open>d\<close>: only \<open>%w\<close> keeps the chain.\<close>

fun errors_Is :: "go_error \<Rightarrow> derror \<Rightarrow> bool" where
  "errors_Is (ErrText s) t = False"
| "errors_Is (ErrSentinel d) t = (d = t)"
| "errors_Is (ErrWrap e d) t = (d = t)"
| "errors_Is (ErrWrapHead d s) t = (d = t)"
| "errors_Is (ErrPrefix p e) t = errors_Is e t"

text \<open>\<open>derrors.Wrap(&err, label)\<close>: a nil error stays nil.\<close>

definition Wrap :: "string \<Rightarrow> go_error option \<Rightarrow> go_error option" where
  "Wrap label err = map_option (ErrPrefix label) err"

text \<open>
  What a call can do: return a value, return an error, or panic with a message.
\<close>

datatype 'a outcome = Returned 'a | Failed go_error | Panicked string

section \<open>Data of the worker\<close>

definition ModeVTA :: string where "ModeVTA = ''VTA''"
definition ModeVTAStacks :: string where "ModeVTAStacks = ''VTASTACKS''"
definition ModeImports :: string where "ModeImports = ''IMPORTS''"
definition ModeBinary :: string where "ModeBinary = ''BINARY''"

text \<open>\<open>scan.Request\<close>, as far as the worker reads it.\<close>

record Request =
  Module :: string
  Version :: string
  Suffix :: string
  Mode :: string
  ImportedBy :: int
  Insecure :: bool

text \<open>
  Modelled from the spec: \<open>bigquery.VulncheckWorkVersion\<close> and its method \<open>Equal\<close>
  are not among the sources. A work version is the tuple (analyzer revision, vulnerability
  database last modified, schema revision), and two work versions are equal iff all three
  fields match. The stored one is a pointer read from a map: \<open>None\<close> is \<open>nil\<close>, which
  equals no work version of a scanner.
\<close>

record VulncheckWorkVersion =
  AnalyzerRevision :: string
  VulnDBLastModified :: int
  SchemaRevision :: string

definition Equal :: "VulncheckWorkVersion \<Rightarrow> VulncheckWorkVersion option \<Rightarrow> bool" where
  "Equal v1 w =
     (case w of
        None \<Rightarrow> False
      | Some v2 \<Rightarrow>
          AnalyzerRevision v1 = AnalyzerRevision v2
          \<and> VulnDBLastModified v1 = VulnDBLastModified v2
          \<and> SchemaRevision v1 = SchemaRevision v2)"

text \<open>\<open>vulncheck.Vuln\<close> (the analyzer's finding) and \<open>bigquery.Vuln\<close> (the stored one).\<close>

record Vuln =
  OSV_ID :: string
  ModPath :: string
  PkgPath :: string
  Symbol :: string
  CallSink :: int
  ImportSink :: int
  RequireSink :: int

record BVuln =
  ID :: string
  ModulePath_v :: string
  PackagePath_v :: string
  Symbol_v :: string
  CallSink_v :: "int option"
  ImportSink_v :: "int option"
  RequireSink_v :: "int option"

text \<open>
  \<open>convertVuln\<close>. Modelled from the spec: \<open>bigquery.NullInt\<close> is not among the sources;
  the three sinks of a stored vulnerability are nullable integers, and \<open>NullInt n\<close> is
  the one that holds \<open>n\<close>.
\<close>

definition NullInt :: "int \<Rightarrow> int option" where
  "NullInt n = Some n"

definition convertVuln :: "Vuln \<Rightarrow> BVuln" where
  "convertVuln v =
     \<lparr>ID = OSV_ID v, ModulePath_v = ModPath v, PackagePath_v = PkgPath v,
      Symbol_v = Symbol v, CallSink_v = NullInt (CallSink v),
      ImportSink_v = NullInt (ImportSink v), RequireSink_v = NullInt (RequireSink v)\<rparr>"

text \<open>
  \<open>bigquery.VulnResult\<close>, the result row. The fields the scanner fills from the clock,
  the environment and \<open>version.ForSorting\<close> (\<open>CommitTime\<close>, \<open>ScanSeconds\<close>, \<open>Workers\<close>,
  \<open>SortVersion\<close>) are left out: no branch of the scanner reads them.

  Modelled from the spec: \<open>AddError\<close> is not among the sources. It attaches the error to
  the row; \<open>None\<close> is the empty error field.
\<close>

record VulnResult =
  ModulePath :: string
  Version_row :: string
  Suffix_row :: string
  ImportedBy_row :: int
  ScanMode :: string
  ScanMemory :: "64 word"
  PkgsMemory :: "64 word"
  VulnDBLastModified_row :: int
  WorkVersion_row :: VulncheckWorkVersion
  Vulns :: "BVuln list"
  Error :: "go_error option"

definition AddError :: "VulnResult \<Rightarrow> go_error \<Rightarrow> VulnResult" where
  "AddError row err = row\<lparr>Error := Some err\<rparr>"

record vulncheckStats =
  scanMemory :: "64 word"
  pkgsMemory :: "64 word"

text \<open>\<open>memSubtract\<close>.\<close>

definition memSubtract :: "64 word \<Rightarrow> 64 word \<Rightarrow> 64 word" where
  "memSubtract m1 m2 = (if m1 \<le> m2 then 0 else m1 - m2)"

text \<open>The result of \<open>os.Stat\<close> as \<open>fileExists\<close> tells it apart.\<close>

datatype stat_result = StatOk | StatNotExist | StatOtherError

definition fileExists :: "stat_result \<Rightarrow> bool" where
  "fileExists st =
     (case st of StatOk \<Rightarrow> True | StatNotExist \<Rightarrow> False | StatOtherError \<Rightarrow> True)"

definition isVulnDBConnection :: "(derror \<Rightarrow> string) \<Rightarrow> go_error \<Rightarrow> bool" where
  "isVulnDBConnection T err =
     (Contains (Error_text T err) ''https://vuln.go.dev''
      \<and> Contains (Error_text T err) ''connection'')"

definition isNoRequiredModule :: "(derror \<Rightarrow> string) \<Rightarrow> go_error \<Rightarrow> bool" where
  "isNoRequiredModule T err = Contains (Error_text T err) ''no required module''"

definition isMissingGoSumEntry :: "string \<Rightarrow> bool" where
  "isMissingGoSumEntry errMsg = Contains errMsg ''missing go.sum entry''"

section \<open>The memory monitor\<close>

text \<open>
  What happens while \<open>runWithMemoryMonitor\<close> runs, in the order it happens: the monitor
  takes a heap sample, \<open>f\<close> sends its result on the channel \<open>srchan\<close>, or the context
  \<open>ctx\<close> of the caller is done (\<open>cctx\<close> is derived from it).
\<close>

datatype mon_event =
    HeapSample "64 word"
  | FReturns "Vuln list option" "go_error option"
  | CtxDone

text \<open>
  Modelled from the spec: \<open>newMemMonitor\<close> and \<open>stop\<close> are not among the sources. The
  monitor samples the heap; if the limit is positive and a sample exceeds it, it calls
  \<open>cancel\<close>; \<open>stop\<close> returns the maximum sample observed.
\<close>

record memMonitor =
  peak :: "64 word"
  cancelled :: bool

definition newMemMonitor :: memMonitor where
  "newMemMonitor = \<lparr>peak = 0, cancelled = False\<rparr>"

definition exceeds :: "64 word \<Rightarrow> 64 word \<Rightarrow> bool" where
  "exceeds limit cur = (0 < limit \<and> limit < cur)"

definition sample :: "64 word \<Rightarrow> memMonitor \<Rightarrow> 64 word \<Rightarrow> memMonitor" where
  "sample limit m cur =
     \<lparr>peak = max (peak m) cur, cancelled = (cancelled m \<or> exceeds limit cur)\<rparr>"

definition stop :: "memMonitor \<Rightarrow> 64 word" where
  "stop m = peak m"

text \<open>The samples among some events, and the monitor once it has taken them.\<close>

fun samplesOf :: "mon_event list \<Rightarrow> 64 word list" where
  "samplesOf [] = []"
| "samplesOf (HeapSample cur # es) = cur # samplesOf es"
| "samplesOf (FReturns res err # es) = samplesOf es"
| "samplesOf (CtxDone # es) = samplesOf es"

definition monitorAfter :: "64 word \<Rightarrow> mon_event list \<Rightarrow> memMonitor" where
  "monitorAfter limit es = foldl (sample limit) newMemMonitor (samplesOf es)"

text \<open>
  The two cases of the \<open>select\<close> of \<open>runWithMemoryMonitor\<close>. The case \<open><-srchan\<close> is
  ready once \<open>f\<close> has returned (its send waits for the receiver); the case
  \<open><-cctx.Done()\<close> is ready once the monitor has cancelled \<open>cctx\<close> or \<open>ctx\<close> is done.
\<close>

datatype select_case =
    ResultReceived "Vuln list option" "go_error option"
  | ContextDone

fun firstResult :: "mon_event list \<Rightarrow> (Vuln list option \<times> go_error option) option" where
  "firstResult [] = None"
| "firstResult (FReturns res err # es) = Some (res, err)"
| "firstResult (HeapSample cur # es) = firstResult es"
| "firstResult (CtxDone # es) = firstResult es"

definition doneReady :: "64 word \<Rightarrow> mon_event list \<Rightarrow> bool" where
  "doneReady limit es = (CtxDone \<in> set es \<or> cancelled (monitorAfter limit es))"

text \<open>
  A goroutine that waits in the \<open>select\<close> is woken by the first case that becomes
  ready. \<open>k\<close> counts the events that have happened. With no case ever ready the
  \<open>select\<close> blocks for good: \<open>None\<close>.
\<close>

fun waitFirst ::
  "64 word \<Rightarrow> memMonitor \<Rightarrow> nat \<Rightarrow> mon_event list \<Rightarrow> (select_case \<times> nat) option" where
  "waitFirst limit m k [] = None"
| "waitFirst limit m k (HeapSample cur # es) =
     (if cancelled (sample limit m cur) then Some (ContextDone, Suc k)
      else waitFirst limit (sample limit m cur) (Suc k) es)"
| "waitFirst limit m k (FReturns res err # es) = Some (ResultReceived res err, Suc k)"
| "waitFirst limit m k (CtxDone # es) = Some (ContextDone, Suc k)"

text \<open>
  The \<open>select\<close>. The scheduler decides how many of the events have happened when the
  goroutine reaches it (\<open>entered\<close>). If both cases are ready by then, Go picks one of
  them at random (\<open>picksResult\<close> says which); if one is, it is taken; if none is, the
  goroutine waits. The number returned with the case is that of the events that have
  happened when the \<open>select\<close> is decided.
\<close>

definition selectCase ::
  "64 word \<Rightarrow> mon_event list \<Rightarrow> nat \<Rightarrow> bool \<Rightarrow> (select_case \<times> nat) option" where
  "selectCase limit events entered picksResult =
     (let before = take entered events
      in case firstResult before of
           Some (res, err) \<Rightarrow>
             (if doneReady limit before \<and> \<not> picksResult then Some (ContextDone, length before)
              else Some (ResultReceived res err, length before))
         | None \<Rightarrow>
             (if doneReady limit before then Some (ContextDone, length before)
              else waitFirst limit (monitorAfter limit before) (length before)
                     (drop entered events)))"

text \<open>
  \<open>runWithMemoryMonitor\<close>. After the \<open>select\<close> it calls \<open>monitor.stop()\<close>; until then
  \<open>stopDelay\<close> more events happen, and the monitor has taken the samples among them too.
\<close>

definition runWithMemoryMonitor ::
  "64 word \<Rightarrow> mon_event list \<Rightarrow> nat \<Rightarrow> bool \<Rightarrow> nat
     \<Rightarrow> (Vuln list option \<times> 64 word \<times> go_error option) option" where
  "runWithMemoryMonitor goMemLimit events entered picksResult stopDelay =
     (case selectCase goMemLimit events entered picksResult of
        None \<Rightarrow> None
      | Some (c, k) \<Rightarrow>
          (let mem = stop (monitorAfter goMemLimit (take (k + stopDelay) events))
           in Some (case c of
                      ResultReceived res err \<Rightarrow> (res, mem, err)
                    | ContextDone \<Rightarrow>
                        (None, mem, Some (ErrSentinel ScanModuleMemoryLimitExceeded)))))"

section \<open>The world around one scan request\<close>

text \<open>
  The stored work versions: \<open>map[[2]string]*VulncheckWorkVersion\<close>. A key that is not
  in the map reads as the nil pointer.
\<close>

type_synonym work_versions = "string \<times> string \<Rightarrow> VulncheckWorkVersion option"

text \<open>The package-level variables \<open>shouldSkip\<close> and \<open>activeScans\<close> (an \<open>atomic.Int32\<close>).\<close>

record globals =
  shouldSkip :: "string \<Rightarrow> bool"
  activeScans :: "32 word"

text \<open>The table as the source declares it: \<open>map[string]bool{}\<close>.\<close>

definition shouldSkip_declared :: "string \<Rightarrow> bool" where
  "shouldSkip_declared m = False"

text \<open>
  Everything the handler of one request gets from outside the sources under
  verification: the HTTP request, BigQuery, the proxy, the file system, the package
  loader, the heap readings, the analyzer and the upload. Each field is the result of
  the call it is named after. Three fields are the scheduler's part in
  \<open>runWithMemoryMonitor\<close>; \<open>duringScan\<close> is what the other scans of the process do to
  the package-level variables while the body of this scan runs.
\<close>

record world =
  derrorText :: "derror \<Rightarrow> string"
  ParseRequest :: "go_error + Request"
  FormValue :: "string \<Rightarrow> string"
  ReadVulncheckWorkVersions :: "work_versions option \<times> go_error option"
  getWorkVersion :: "go_error + VulncheckWorkVersion"
  storage_NewClient :: "go_error option"
  Getenv :: "string \<Rightarrow> string"
  proxy_Info :: "go_error + string"
  MkdirTemp :: "go_error option"
  RemoveAll :: "go_error option"
  Download :: "go_error option"
  heapBeforeLoad :: "64 word"
  load_Packages :: "go_error list \<times> go_error option"
  stat_go_mod :: stat_result
  stat_go_sum :: stat_result
  heapAfterLoad :: "64 word"
  monitorEvents :: "mon_event list"
  sched_entered :: nat
  sched_picksResult :: bool
  sched_stopDelay :: nat
  duringScan :: "globals \<Rightarrow> globals"
  runBinaryScanInsecure :: "Vuln list outcome \<times> vulncheckStats"
  runScanModuleSandbox :: "Vuln list outcome"
  Upload :: "go_error option"

record VulncheckServer =
  storedWorkVersions :: "work_versions option"
  bqClient_h :: bool
  cfg_Insecure :: bool
  cfg_BinaryBucket :: string

record scanner =
  bqClient :: bool
  workVersion :: VulncheckWorkVersion
  goMemLimit :: "64 word"
  gcsBucket :: "string option"
  insecure :: bool

text \<open>
  What a run leaves behind, in order: the look-up in \<open>shouldSkip\<close>, the read of the
  stored work versions from BigQuery, the making of the scanner, the comparison of the
  work versions, the call of \<open>proxyClient.Info\<close>, the analysis (with the insecure flag
  of the scanner and the mode; it downloads the module and runs the analyzer),
  \<open>cleanGoCaches\<close>, and the upload of a row.
\<close>

datatype event =
    EvShouldSkip string
  | EvReadWorkVersions
  | EvNewScanner
  | EvCompareWorkVersion
  | EvProxyInfo string string
  | EvAnalyze bool string
  | EvCleanGoCaches
  | EvUpload VulnResult

section \<open>The scanner\<close>

text \<open>\<open>fmt.Errorf("%v", pkgErrors)\<close>: a slice prints in brackets, separated by spaces.\<close>

fun joinWith :: "string \<Rightarrow> string list \<Rightarrow> string" where
  "joinWith sep [] = []"
| "joinWith sep [x] = x"
| "joinWith sep (x # y # ys) = x @ sep @ joinWith sep (y # ys)"

definition formatErrors :: "(derror \<Rightarrow> string) \<Rightarrow> go_error list \<Rightarrow> string" where
  "formatErrors T es = ''['' @ joinWith '' '' (map (Error_text T) es) @ '']''"

text \<open>
  \<open>runSourceScanInsecure\<close>. The function \<open>f\<close> handed to the monitor runs
  \<open>vulncheck.Source\<close> and \<open>vulncheck.CallStacks\<close>; what it returns is the \<open>FReturns\<close>
  event of the world. \<open>res.Vulns\<close> on a nil \<open>res\<close> is a nil dereference. A panic of
  \<open>f\<close> itself is on another goroutine, where no deferred function recovers it: it ends
  the process and is not an outcome here. The time measurements are left out.
\<close>

definition runSourceScanInsecure ::
  "world \<Rightarrow> scanner \<Rightarrow> vulncheckStats \<Rightarrow> (Vuln list outcome \<times> vulncheckStats) option" where
  "runSourceScanInsecure W s stats =
     (case Download W of
        Some err \<Rightarrow> Some (Failed err, stats)
      | None \<Rightarrow>
          (let preScanMemory = heapBeforeLoad W;
               pkgErrors = fst (load_Packages W);
               err0 = snd (load_Packages W);
               err = (if err0 = None \<and> 0 < length pkgErrors
                      then Some (ErrText (formatErrors (derrorText W) pkgErrors))
                      else err0)
           in case err of
                Some e \<Rightarrow>
                  Some (Failed
                    (if \<not> fileExists (stat_go_mod W)
                       then ErrWrap e ScanModuleLoadPackagesNoGoModError
                     else if \<not> fileExists (stat_go_sum W)
                       then ErrWrap e ScanModuleLoadPackagesNoGoSumError
                     else if isNoRequiredModule (derrorText W) e
                       then ErrWrap e ScanModuleLoadPackagesNoRequiredModuleError
                     else if isMissingGoSumEntry (Error_text (derrorText W) e)
                       then ErrWrap e ScanModuleLoadPackagesMissingGoSumEntryError
                     else ErrWrap e ScanModuleLoadPackagesError), stats)
              | None \<Rightarrow>
                  (let stats1 = stats\<lparr>pkgsMemory := memSubtract (heapAfterLoad W) preScanMemory\<rparr>
                   in case runWithMemoryMonitor (goMemLimit s) (monitorEvents W) (sched_entered W)
                          (sched_picksResult W) (sched_stopDelay W) of
                        None \<Rightarrow> None
                      | Some (res, peakMem, err') \<Rightarrow>
                          (let stats2 = stats1\<lparr>scanMemory := memSubtract peakMem preScanMemory\<rparr>
                           in case err' of
                                Some e \<Rightarrow> Some (Failed e, stats2)
                              | None \<Rightarrow>
                                  (case res of
                                     None \<Rightarrow> Some (Panicked ''nil pointer dereference'', stats2)
                                   | Some vulns \<Rightarrow> Some (Returned vulns, stats2))))))"

text \<open>
  \<open>runScanModuleInsecure\<close>. The deferred function removes the temporary directory and
  turns a success into the error of the removal, if there is one.
\<close>

definition runScanModuleInsecure ::
  "world \<Rightarrow> scanner \<Rightarrow> string \<Rightarrow> vulncheckStats
     \<Rightarrow> (Vuln list outcome \<times> vulncheckStats) option" where
  "runScanModuleInsecure W s mode stats =
     (case MkdirTemp W of
        Some err \<Rightarrow> Some (Failed err, stats)
      | None \<Rightarrow>
          (case (if mode = ModeBinary then Some (runBinaryScanInsecure W)
                 else runSourceScanInsecure W s stats) of
             None \<Rightarrow> None
           | Some (r, stats') \<Rightarrow>
               Some (case r of
                       Returned vulns \<Rightarrow>
                         (case RemoveAll W of None \<Rightarrow> Returned vulns | Some err1 \<Rightarrow> Failed err1)
                     | Failed err \<Rightarrow> Failed err
                     | Panicked p \<Rightarrow> Panicked p, stats')))"

text \<open>
  \<open>runScanModule\<close>. \<open>activeScans.Add(1)\<close> on entry; then the body, which is
  \<open>runScanModuleInsecure\<close> or \<open>runScanModuleSandbox\<close>; the deferred function does
  \<open>activeScans.Add(-1)\<close> and cleans the caches when that returns zero; the first
  deferred function turns a panic into an error, whose text after the sentinel is the
  panic value and the stack (the message \<open>p\<close> of \<open>Panicked p\<close>). A panic leaves the
  named result \<open>bvulns\<close> nil. Other scans run while the body does: the deferred
  function finds the counter as they have left it.
\<close>

definition enterScan :: "globals \<Rightarrow> globals" where
  "enterScan G = G\<lparr>activeScans := activeScans G + 1\<rparr>"

definition exitScan :: "globals \<Rightarrow> bool \<times> globals" where
  "exitScan G = (activeScans G - 1 = 0, G\<lparr>activeScans := activeScans G - 1\<rparr>)"

definition scanBody ::
  "world \<Rightarrow> scanner \<Rightarrow> string \<Rightarrow> vulncheckStats
     \<Rightarrow> (Vuln list outcome \<times> vulncheckStats) option" where
  "scanBody W s mode stats =
     (if insecure s then runScanModuleInsecure W s mode stats
      else Some (runScanModuleSandbox W, stats))"

definition runScanModule ::
  "world \<Rightarrow> scanner \<Rightarrow> string \<Rightarrow> globals \<Rightarrow> vulncheckStats
     \<Rightarrow> ((BVuln list \<times> go_error option) \<times> event list \<times> vulncheckStats \<times> globals) option" where
  "runScanModule W s mode G stats =
     (let G1 = enterScan G
      in case scanBody W s mode stats of
           None \<Rightarrow> None
         | Some (r, stats') \<Rightarrow>
             (let (clean, G2) = exitScan (duringScan W G1);
                  result =
                    (case r of
                       Failed err \<Rightarrow>
                         ([], Some
                            (if isVulnDBConnection (derrorText W) err
                               then ErrWrap err ScanModuleVulncheckDBConnectionError
                             else if \<not> errors_Is err ScanModuleMemoryLimitExceeded
                               then ErrWrap err ScanModuleVulncheckError
                             else err))
                     | Returned vulns \<Rightarrow> (map convertVuln vulns, None)
                     | Panicked p \<Rightarrow> ([], Some (ErrWrapHead ScanModulePanicError p)))
              in Some (result,
                       EvAnalyze (insecure s) mode # (if clean then [EvCleanGoCaches] else []),
                       stats', G2)))"

text \<open>
  \<open>ScanModule\<close>. Besides the events and the globals it returns the row as the scanner
  holds it at the end (\<open>None\<close> for the standard library, for which no row is made).
\<close>

definition ScanModule ::
  "world \<Rightarrow> scanner \<Rightarrow> Request \<Rightarrow> globals
     \<Rightarrow> (event list \<times> VulnResult option \<times> globals) option" where
  "ScanModule W s sreq G =
     (if Module sreq = ''std'' then Some ([], None, G)
      else
        (let row = \<lparr>ModulePath = Module sreq, Version_row = '''', Suffix_row = Suffix sreq,
                    ImportedBy_row = 0, ScanMode = '''', ScanMemory = 0, PkgsMemory = 0,
                    VulnDBLastModified_row = 0, WorkVersion_row = workVersion s,
                    Vulns = [], Error = None\<rparr>
         in case proxy_Info W of
              Inl err \<Rightarrow>
                Some ([EvProxyInfo (Module sreq) (Version sreq)],
                      Some (AddError row (ErrWrap err ProxyError)), G)
            | Inr info_Version \<Rightarrow>
                (let row1 = row\<lparr>Version_row := info_Version, ImportedBy_row := ImportedBy sreq,
                                 VulnDBLastModified_row := VulnDBLastModified (workVersion s),
                                 ScanMode := Mode sreq\<rparr>
                 in case runScanModule W s (Mode sreq) G \<lparr>scanMemory = 0, pkgsMemory = 0\<rparr> of
                      None \<Rightarrow> None
                    | Some ((vulns, err), tr, stats, G') \<Rightarrow>
                        (let row2 = row1\<lparr>ScanMemory := scanMemory stats,
                                          PkgsMemory := pkgsMemory stats\<rparr>;
                             row3 = (case err of
                                       Some e \<Rightarrow> AddError row2 e
                                     | None \<Rightarrow> row2\<lparr>Vulns := vulns\<rparr>);
                             tr' = EvProxyInfo (Module sreq) (Version sreq) # tr
                         in if \<not> bqClient s then Some (tr', Some row3, G')
                            else
                              (case Upload W of
                                 None \<Rightarrow> Some (tr' @ [EvUpload row3], Some row3, G')
                               | Some e \<Rightarrow>
                                   Some (tr' @ [EvUpload row3],
                                         Some (AddError row3 (ErrWrap e BigQueryError)), G'))))))"

text \<open>\<open>readVulncheckWorkVersions\<close>: the table is read once, and only with a client.\<close>

definition readVulncheckWorkVersions ::
  "world \<Rightarrow> VulncheckServer \<Rightarrow> event list \<times> VulncheckServer \<times> go_error option" where
  "readVulncheckWorkVersions W h =
     (if storedWorkVersions h \<noteq> None then ([], h, None)
      else if \<not> bqClient_h h then ([], h, None)
      else ([EvReadWorkVersions],
            h\<lparr>storedWorkVersions := fst (ReadVulncheckWorkVersions W)\<rparr>,
            snd (ReadVulncheckWorkVersions W)))"

text \<open>\<open>newScanner\<close>.\<close>

definition newScanner :: "world \<Rightarrow> VulncheckServer \<Rightarrow> go_error + scanner" where
  "newScanner W h =
     (case getWorkVersion W of
        Inl err \<Rightarrow> Inl err
      | Inr wv \<Rightarrow>
          (case (if cfg_BinaryBucket h \<noteq> '''' then storage_NewClient W else None) of
             Some err \<Rightarrow> Inl err
           | None \<Rightarrow>
               Inr \<lparr>bqClient = bqClient_h h, workVersion = wv,
                    goMemLimit = parseGoMemLimit (Getenv W ''GOMEMLIMIT''),
                    gcsBucket = (if cfg_BinaryBucket h \<noteq> '''' then Some (cfg_BinaryBucket h)
                                 else None),
                    insecure = cfg_Insecure h\<rparr>))"

text \<open>The element of the map for a key; a nil map reads as the nil pointer everywhere.\<close>

definition lookupWorkVersion ::
  "work_versions option \<Rightarrow> string \<times> string \<Rightarrow> VulncheckWorkVersion option" where
  "lookupWorkVersion m k = (case m of None \<Rightarrow> None | Some t \<Rightarrow> t k)"

text \<open>
  \<open>handleScan\<close>. It returns the error of the handler (\<open>None\<close> is success), the events,
  the server and the globals. \<open>None\<close> as a whole: the handler never returns.
\<close>

definition handleScan ::
  "world \<Rightarrow> globals \<Rightarrow> VulncheckServer
     \<Rightarrow> (go_error option \<times> event list \<times> VulncheckServer \<times> globals) option" where
  "handleScan W G h =
     (case ParseRequest W of
        Inl err \<Rightarrow>
          Some (Wrap ''handleScan''
                  (Some (ErrWrapHead InvalidArgument (Error_text (derrorText W) err))), [], h, G)
      | Inr sreq0 \<Rightarrow>
          (let sreq = (if Mode sreq0 = '''' then sreq0\<lparr>Mode := ModeVTA\<rparr> else sreq0);
               tr0 = [EvShouldSkip (Module sreq)]
           in if shouldSkip G (Module sreq) then Some (None, tr0, h, G)
              else
                (case readVulncheckWorkVersions W h of
                   (tr1, h1, Some err) \<Rightarrow> Some (Wrap ''handleScan'' (Some err), tr0 @ tr1, h1, G)
                 | (tr1, h1, None) \<Rightarrow>
                     (case newScanner W h1 of
                        Inl err \<Rightarrow>
                          Some (Wrap ''handleScan'' (Some err), tr0 @ tr1 @ [EvNewScanner], h1, G)
                      | Inr scanner0 \<Rightarrow>
                          (let scanner = (if FormValue W ''insecure'' \<noteq> ''''
                                          then scanner0\<lparr>insecure := Insecure sreq\<rparr>
                                          else scanner0);
                               wv = lookupWorkVersion (storedWorkVersions h1)
                                      (Module sreq, Version sreq);
                               tr2 = tr0 @ tr1 @ [EvNewScanner, EvCompareWorkVersion]
                           in if Equal (workVersion scanner) wv then Some (None, tr2, h1, G)
                              else
                                (case ScanModule W scanner sreq G of
                                   None \<Rightarrow> None
                                 | Some (tr3, row, G') \<Rightarrow>
                                     Some (None, tr2 @ tr3, h1, G')))))))"

section \<open>doScan and the fleet of scans\<close>

text \<open>
  \<open>doScan\<close> of scan.go, around a function \<open>f\<close> that returns nil, returns an error or
  panics. \<open>f\<close> runs between \<open>activeScans.Add(1)\<close> and the deferred
  \<open>activeScans.Add(-1)\<close>, while other scans run too: it is given the package-level
  variables as they are when it starts, and its result comes with the variables as
  they are when it ends. The label of \<open>derrors.Wrap\<close> is \<open>scan(%q, %q)\<close> of the module
  path and the version; \<open>%q\<close> is written here without the escapes of Go for special
  bytes.
\<close>

definition doScan ::
  "string \<Rightarrow> string \<Rightarrow> globals \<Rightarrow> (globals \<Rightarrow> unit outcome \<times> globals)
     \<Rightarrow> go_error option \<times> event list \<times> globals" where
  "doScan modulePath version G f =
     (let G1 = enterScan G;
          (how, G1') = f G1;
          err = (case how of
                   Returned u \<Rightarrow> None
                 | Failed e \<Rightarrow> Some e
                 | Panicked p \<Rightarrow> Some (ErrWrapHead ScanModulePanicError p));
          (clean, G2) = exitScan G1'
      in (Wrap (''scan(\"'' @ modulePath @ ''\", \"'' @ version @ ''\")'') err,
          (if clean then [EvCleanGoCaches] else []), G2))"

text \<open>
  Scans run concurrently, one goroutine each. The counter is atomic, so a run of the
  fleet is an interleaving of the steps of its scans, and a scan (\<open>doScan\<close> and
  \<open>runScanModule\<close> alike) has three steps that touch shared state:
  \<^item> \<open>Ready\<close> to \<open>Running\<close>: \<open>activeScans.Add(1)\<close>;
  \<^item> \<open>Running\<close> to \<open>Cleaning\<close> or \<open>Done\<close>: the body has ended (it returned, failed, was
    cancelled by the memory monitor, which is a failure, or panicked), and the deferred
    function does \<open>activeScans.Add(-1)\<close> and compares the new value to zero;
  \<^item> \<open>Cleaning\<close> to \<open>Done\<close>: \<open>cleanGoCaches\<close>.
\<close>

datatype pc = Ready | Running | Cleaning | Done

datatype action =
    Entered nat
  | Left nat "unit outcome" "32 word"
  | Cleaned nat

record fleet =
  shared :: globals
  pcs :: "pc list"
  history :: "action list"

text \<open>
  One step of scan \<open>i\<close>; \<open>how\<close> is the way its body ends, read when the scan is
  \<open>Running\<close>. A scan that is \<open>Done\<close>, or that does not exist, does nothing.
\<close>

definition step :: "nat \<times> unit outcome \<Rightarrow> fleet \<Rightarrow> fleet" where
  "step x F =
     (let i = fst x; how = snd x
      in if length (pcs F) \<le> i then F
         else
           (case pcs F ! i of
              Ready \<Rightarrow>
                F\<lparr>shared := enterScan (shared F), pcs := (pcs F)[i := Running],
                  history := history F @ [Entered i]\<rparr>
            | Running \<Rightarrow>
                (let (clean, G2) = exitScan (shared F)
                 in F\<lparr>shared := G2, pcs := (pcs F)[i := (if clean then Cleaning else Done)],
                      history := history F @ [Left i how (activeScans G2)]\<rparr>)
            | Cleaning \<Rightarrow>
                F\<lparr>pcs := (pcs F)[i := Done], history := history F @ [Cleaned i]\<rparr>
            | Done \<Rightarrow> F))"

fun run :: "(nat \<times> unit outcome) list \<Rightarrow> fleet \<Rightarrow> fleet" where
  "run [] F = F"
| "run (x # xs) F = run xs (step x F)"

text \<open>A process starts with the counter at zero (the zero value of \<open>atomic.Int32\<close>).\<close>

definition start :: "(string \<Rightarrow> bool) \<Rightarrow> nat \<Rightarrow> fleet" where
  "start skip n =
     \<lparr>shared = \<lparr>shouldSkip = skip, activeScans = 0\<rparr>, pcs = replicate n Ready, history = []\<rparr>"

definition entries :: "nat \<Rightarrow> action list \<Rightarrow> nat" where
  "entries i as = length (filter (\<lambda>a. a = Entered i) as)"

definition exits :: "nat \<Rightarrow> action list \<Rightarrow> nat" where
  "exits i as = length (filter (\<lambda>a. case a of Left j how v \<Rightarrow> j = i | _ \<Rightarrow> False) as)"

definition leftAtZero :: "nat \<Rightarrow> action list \<Rightarrow> bool" where
  "leftAtZero i as = list_ex (\<lambda>a. case a of Left j how v \<Rightarrow> j = i \<and> v = 0 | _ \<Rightarrow> False) as"

section \<open>The enqueue planner\<close>

record ModuleSpec =
  Path :: string
  Version_ms :: string
  ImportedBy_ms :: int

text \<open>
  What the planner reads: the module population (\<open>readModules\<close> is not among the
  sources: its result is a field here), the storage client, the objects of the bucket
  as the iterator yields them (\<open>Inl\<close> for an error of \<open>Next\<close>; the end of the list is
  \<open>iterator.Done\<close>) and \<open>scan.ParseModuleURLPath\<close>, which gives module, version and
  suffix.
\<close>

record planner_world =
  readModules :: "go_error + ModuleSpec list"
  planner_NewClient :: "go_error option"
  bucketObjects :: "(go_error + string) list"
  ParseModuleURLPath :: "string \<Rightarrow> go_error + string \<times> string \<times> string"

definition binaryDir :: string where
  "binaryDir = ''binaries''"

definition TrimPrefix :: "string \<Rightarrow> string \<Rightarrow> string" where
  "TrimPrefix s p = (if take (length p) s = p then drop (length p) s else s)"

text \<open>
  A \<open>vulncheckRequest\<close> carries a module coordinate and the parameters of a scan
  request; it is written as a \<open>Request\<close>.
\<close>

fun readBinariesLoop ::
  "planner_world \<Rightarrow> (go_error + string) list \<Rightarrow> Request list \<Rightarrow> go_error + Request list" where
  "readBinariesLoop P [] reqs = Inr reqs"
| "readBinariesLoop P (Inl err # objs) reqs = Inl err"
| "readBinariesLoop P (Inr name # objs) reqs =
     (case ParseModuleURLPath P (TrimPrefix name (binaryDir @ ''/'')) of
        Inl err \<Rightarrow> Inl err
      | Inr (m, v, sfx) \<Rightarrow>
          readBinariesLoop P objs
            (reqs @ [\<lparr>Module = m, Version = v, Suffix = sfx, Mode = ModeBinary,
                      ImportedBy = 0, Insecure = False\<rparr>]))"

definition wrapResult :: "string \<Rightarrow> go_error + 'a \<Rightarrow> go_error + 'a" where
  "wrapResult label r = (case r of Inl err \<Rightarrow> Inl (ErrPrefix label err) | Inr x \<Rightarrow> Inr x)"

definition readBinaries :: "planner_world \<Rightarrow> string \<Rightarrow> go_error + Request list" where
  "readBinaries P bucketName =
     wrapResult (''readBinaries(\"'' @ bucketName @ ''\")'')
       (if bucketName = '''' then Inr []
        else
          (case planner_NewClient P of
             Some err \<Rightarrow> Inl err
           | None \<Rightarrow> readBinariesLoop P (bucketObjects P) []))"

text \<open>
  Modelled from the spec: \<open>moduleSpecsToScanRequests\<close> is not among the sources. It
  makes one request per module of the population, for the given mode.
\<close>

definition moduleSpecsToScanRequests :: "ModuleSpec list \<Rightarrow> string \<Rightarrow> Request list" where
  "moduleSpecsToScanRequests modspecs mode =
     map (\<lambda>ms. \<lparr>Module = Path ms, Version = Version_ms ms, Suffix = '''', Mode = mode,
                 ImportedBy = ImportedBy_ms ms, Insecure = False\<rparr>) modspecs"

text \<open>
  The loop of \<open>createVulncheckQueueTasks\<close> over the modes, with its two variables
  \<open>tasks\<close> and \<open>modspecs\<close>. The nil slice is the empty list.
\<close>

fun planModes ::
  "planner_world \<Rightarrow> string \<Rightarrow> string list \<Rightarrow> Request list \<Rightarrow> ModuleSpec list
     \<Rightarrow> go_error + Request list" where
  "planModes P bucket [] tasks modspecs = Inr tasks"
| "planModes P bucket (mode # modes) tasks modspecs =
     (if mode = ModeBinary then
        (case readBinaries P bucket of
           Inl err \<Rightarrow> Inl err
         | Inr reqs \<Rightarrow>
             planModes P bucket modes (tasks @ filter (\<lambda>req. Module req \<noteq> ''std'') reqs) modspecs)
      else if modspecs = [] then
        (case readModules P of
           Inl err \<Rightarrow> Inl err
         | Inr modspecs' \<Rightarrow>
             planModes P bucket modes
               (tasks @ filter (\<lambda>req. Module req \<noteq> ''std'')
                          (moduleSpecsToScanRequests modspecs' mode)) modspecs')
      else
        planModes P bucket modes
          (tasks @ filter (\<lambda>req. Module req \<noteq> ''std'')
                     (moduleSpecsToScanRequests modspecs mode)) modspecs)"

definition createVulncheckQueueTasks ::
  "planner_world \<Rightarrow> string \<Rightarrow> string list \<Rightarrow> go_error + Request list" where
  "createVulncheckQueueTasks P cfg_bucket modes =
     wrapResult (''createVulncheckQueueTasks(['' @ joinWith '' '' modes @ ''])'')
       (planModes P cfg_bucket modes [] [])"

text \<open>
  The task identifier is \<open>newTaskID(module, version)\<close>, a function of these two
  arguments alone: two descriptors that agree on them have the same identifier.
\<close>

definition taskIDArguments :: "Request \<Rightarrow> string \<times> string" where
  "taskIDArguments req = (Module req, Version req)"

text \<open>The requests the planner has for a mode, once both reads have succeeded.\<close>

definition requestsFor :: "Request list \<Rightarrow> ModuleSpec list \<Rightarrow> string \<Rightarrow> Request list" where
  "requestsFor binaries modspecs mode =
     (if mode = ModeBinary then binaries else moduleSpecsToScanRequests modspecs mode)"

section \<open>The task URL\<close>

text \<open>\<open>%d\<close> and \<open>%t\<close> of Go's \<open>fmt\<close>.\<close>

fun showNat :: "nat \<Rightarrow> string" where
  "showNat n =
     (if n < 10 then [''0123456789'' ! n]
      else showNat (n div 10) @ [''0123456789'' ! (n mod 10)])"

definition showInt :: "int \<Rightarrow> string" where
  "showInt i = (if i < 0 then ''-'' @ showNat (nat (- i)) else showNat (nat i))"

definition showBool :: "bool \<Rightarrow> string" where
  "showBool b = (if b then ''true'' else ''false'')"

record Options =
  Namespace :: string
  TaskNameSuffix :: string
  DisableProxyFetch :: bool

text \<open>
  Modelled from the spec: \<open>newTaskRequest\<close> is not among the sources, only its test
  \<open>TestNewTaskRequest\<close> is. The spec gives the URL of a task as
  \<open><queueBase>/<namespace>/scan/<module>/@v/<version>?importedby=N&mode=M&insecure=B\<close>.
  For \<open>disable_proxy_fetch\<close> its sentences disagree: the format of its section 6 ends
  in \<open>[&proxyfetch=off]\<close>, its scenario S5 has \<open>?proxyfetch=off\<close> appended to the URL.
  The definition follows S5, the reading that the test fixes
  (\<open>Url += "?proxyfetch=off"\<close>): at the input of the test it yields the two URLs the
  test wants, \<open>want_Url\<close> and \<open>want_Url_DisableProxyFetch\<close> below.
\<close>

definition taskURL :: "string \<Rightarrow> Options \<Rightarrow> Request \<Rightarrow> string" where
  "taskURL queueURL opts sreq =
     queueURL @ ''/'' @ Namespace opts @ ''/scan/'' @ Module sreq @ ''/@v/'' @ Version sreq
       @ ''?importedby='' @ showInt (ImportedBy sreq)
       @ ''&mode='' @ Mode sreq
       @ ''&insecure='' @ showBool (Insecure sreq)
       @ (if DisableProxyFetch opts then ''?proxyfetch=off'' else '''')"

text \<open>
  The query parameters of a URL, as a server reads them: the query is what follows the
  first \<open>?\<close>, and \<open>&\<close> separates its parameters.
\<close>

fun splitOn :: "char \<Rightarrow> string \<Rightarrow> string list" where
  "splitOn c [] = [[]]"
| "splitOn c (x # xs) =
     (if x = c then [] # splitOn c xs
      else (case splitOn c xs of [] \<Rightarrow> [[x]] | y # ys \<Rightarrow> (x # y) # ys))"

definition queryString :: "string \<Rightarrow> string" where
  "queryString url = drop 1 (dropWhile (\<lambda>c. c \<noteq> CHR ''?'') url)"

definition queryParameters :: "string \<Rightarrow> string list" where
  "queryParameters url = (if queryString url = [] then [] else splitOn (CHR ''&'') (queryString url))"

text \<open>
  \<open>TestNewTaskRequest\<close>: the queue URL of its configuration, the URL it wants of
  \<open>newTaskRequest\<close> at first, and the URL it wants once \<open>opts.DisableProxyFetch\<close> is
  true (\<open>Url += "?proxyfetch=off"\<close>).
\<close>

definition cfg_QueueURL :: string where
  "cfg_QueueURL = ''http://1.2.3.4:8000''"

definition want_Url :: string where
  "want_Url = ''http://1.2.3.4:8000/test/scan/mod/@v/v1.2.3?importedby=0&mode=test&insecure=true''"

definition want_Url_DisableProxyFetch :: string where
  "want_Url_DisableProxyFetch = want_Url @ ''?proxyfetch=off''"

section \<open>Reading a run\<close>

text \<open>The rows handed to the analytics store, in order.\<close>

definition uploadedRows :: "event list \<Rightarrow> VulnResult list" where
  "uploadedRows tr = concat (map (\<lambda>e. case e of EvUpload row \<Rightarrow> [row] | _ \<Rightarrow> []) tr)"

text \<open>The events that call the proxy, run the analyzer or append a row.\<close>

definition fetchesOrRecords :: "event \<Rightarrow> bool" where
  "fetchesOrRecords e =
     (case e of
        EvProxyInfo m v \<Rightarrow> True
      | EvAnalyze i mode \<Rightarrow> True
      | EvUpload row \<Rightarrow> True
      | _ \<Rightarrow> False)"

definition isShouldSkip :: "event \<Rightarrow> bool" where
  "isShouldSkip e = (case e of EvShouldSkip m \<Rightarrow> True | _ \<Rightarrow> False)"

text \<open>
  A run in which the work versions are compared before the deny-list is first
  consulted.
\<close>

definition comparesBeforeShouldSkip :: "event list \<Rightarrow> bool" where
  "comparesBeforeShouldSkip tr =
     (EvCompareWorkVersion \<in> set (takeWhile (\<lambda>e. \<not> isShouldSkip e) tr))"

text \<open>The maximum of the samples the monitor has taken (zero without a sample).\<close>

definition maxSample :: "64 word list \<Rightarrow> 64 word" where
  "maxSample ms = foldl max 0 ms"


section \<open>A world to run the scanner in\<close>

text \<open>
  A world in which every call succeeds: the request is for \<open>mod@v1.2.3\<close> with no
  parameters, no work version is stored, the analyzer finds nothing. The concrete runs
  below change it field by field.
\<close>

definition quietWorld :: world where
  "quietWorld =
     \<lparr>derrorText = (\<lambda>d. ''derror''),
      ParseRequest = Inr \<lparr>Module = ''mod'', Version = ''v1.2.3'', Suffix = '''', Mode = '''',
                          ImportedBy = 0, Insecure = False\<rparr>,
      FormValue = (\<lambda>k. ''''),
      ReadVulncheckWorkVersions = (Some (\<lambda>k. None), None),
      getWorkVersion = Inr \<lparr>AnalyzerRevision = ''rev1'', VulnDBLastModified = 7,
                             SchemaRevision = ''schema1''\<rparr>,
      storage_NewClient = None,
      Getenv = (\<lambda>k. ''''),
      proxy_Info = Inr ''v1.2.3'',
      MkdirTemp = None,
      RemoveAll = None,
      Download = None,
      heapBeforeLoad = 100,
      load_Packages = ([], None),
      stat_go_mod = StatOk,
      stat_go_sum = StatOk,
      heapAfterLoad = 150,
      monitorEvents = [HeapSample 200, FReturns (Some []) None],
      sched_entered = 0,
      sched_picksResult = True,
      sched_stopDelay = 0,
      duringScan = (\<lambda>G. G),
      runBinaryScanInsecure = (Returned [], \<lparr>scanMemory = 0, pkgsMemory = 0\<rparr>),
      runScanModuleSandbox = Returned [],
      Upload = None\<rparr>"

definition quietServer :: VulncheckServer where
  "quietServer =
     \<lparr>storedWorkVersions = None, bqClient_h = True, cfg_Insecure = False,
      cfg_BinaryBucket = ''''\<rparr>"

definition quietGlobals :: globals where
  "quietGlobals = \<lparr>shouldSkip = shouldSkip_declared, activeScans = 0\<rparr>"

definition quietScanner :: scanner where
  "quietScanner =
     \<lparr>bqClient = True,
      workVersion = \<lparr>AnalyzerRevision = ''rev1'', VulnDBLastModified = 7,
                      SchemaRevision = ''schema1''\<rparr>,
      goMemLimit = 0, gcsBucket = None, insecure = False\<rparr>"

definition quietRequest :: Request where
  "quietRequest =
     \<lparr>Module = ''mod'', Version = ''v1.2.3'', Suffix = '''', Mode = ''VTA'',
      ImportedBy = 0, Insecure = False\<rparr>"

text \<open>
  The world in which the stored work version of \<open>mod@v1.2.3\<close> is the one the scanner
  has now.
\<close>

definition storedVersion :: VulncheckWorkVersion where
  "storedVersion =
     \<lparr>AnalyzerRevision = ''rev1'', VulnDBLastModified = 7, SchemaRevision = ''schema1''\<rparr>"

definition unchangedWorld :: world where
  "unchangedWorld =
     quietWorld\<lparr>ReadVulncheckWorkVersions :=
       (Some [(''mod'', ''v1.2.3'') \<mapsto> storedVersion], None)\<rparr>"

text \<open>The world of a request with \<open>?insecure=true\<close>.\<close>

definition insecureWorld :: world where
  "insecureWorld =
     quietWorld
       \<lparr>ParseRequest := Inr \<lparr>Module = ''mod'', Version = ''v1.2.3'', Suffix = '''', Mode = '''',
                              ImportedBy = 0, Insecure = True\<rparr>,
        FormValue := (\<lambda>k. if k = ''insecure'' then ''true'' else '''')\<rparr>"

text \<open>The events of a run, and the two outcome fields of the rows it has uploaded.\<close>

definition trace :: "('e \<times> event list \<times> 'a) option \<Rightarrow> event list option" where
  "trace r = map_option (\<lambda>x. fst (snd x)) r"

definition uploadedOutcomes ::
  "(event list \<times> 'a) option \<Rightarrow> (BVuln list \<times> go_error option) list option" where
  "uploadedOutcomes r =
     map_option (\<lambda>x. map (\<lambda>row. (Vulns row, Error row)) (uploadedRows (fst x))) r"

text \<open>The number of scans in flight, and what holds of a fleet at every moment.\<close>

definition running :: "pc list \<Rightarrow> nat" where
  "running ps = length (filter (\<lambda>p. p = Running) ps)"

definition fleetInvariant :: "fleet \<Rightarrow> bool" where
  "fleetInvariant F =
     (activeScans (shared F) = word_of_nat (running (pcs F))
      \<and> (\<forall>i < length (pcs F).
            entries i (history F) = (if pcs F ! i = Ready then 0 else 1)
            \<and> exits i (history F) = (if pcs F ! i = Cleaning \<or> pcs F ! i = Done then 1 else 0)
            \<and> (pcs F ! i = Cleaning \<longrightarrow> leftAtZero i (history F)))
      \<and> (\<forall>i. Cleaned i \<in> set (history F) \<longrightarrow> leftAtZero i (history F)))"

text \<open>
  How a body ended, without what it returned, and what the other scans of a fleet do to
  the package-level variables while scan \<open>i\<close>, which has just entered and found them as
  \<open>G1\<close>, runs its body: they take the steps \<open>others\<close>.
\<close>

definition ending :: "'a outcome \<Rightarrow> unit outcome" where
  "ending r = (case r of Returned x \<Rightarrow> Returned () | Failed e \<Rightarrow> Failed e | Panicked p \<Rightarrow> Panicked p)"

definition othersRun :: "fleet \<Rightarrow> nat \<Rightarrow> (nat \<times> unit outcome) list \<Rightarrow> globals \<Rightarrow> globals" where
  "othersRun F i others G1 =
     shared (run others
               (F\<lparr>shared := G1, pcs := (pcs F)[i := Running],
                  history := history F @ [Entered i]\<rparr>))"

text \<open>
  Three scans that overlap: the first panics, the second is cancelled by the memory
  monitor, the third returns.
\<close>

definition threeScans :: "(nat \<times> unit outcome) list" where
  "threeScans =
     [(0, Returned ()), (1, Returned ()), (0, Panicked ''boom''), (2, Returned ()),
      (1, Failed (ErrSentinel ScanModuleMemoryLimitExceeded)), (2, Returned ()),
      (2, Returned ())]"

text \<open>A module population that lists \<open>mod@v1.2.3\<close> twice, after the standard library.\<close>

definition twiceListedWorld :: planner_world where
  "twiceListedWorld =
     \<lparr>readModules = Inr [\<lparr>Path = ''std'', Version_ms = ''v1.20.0'', ImportedBy_ms = 9\<rparr>,
                          \<lparr>Path = ''mod'', Version_ms = ''v1.2.3'', ImportedBy_ms = 12\<rparr>,
                          \<lparr>Path = ''mod'', Version_ms = ''v1.2.3'', ImportedBy_ms = 12\<rparr>],
      planner_NewClient = None,
      bucketObjects = [],
      ParseModuleURLPath = (\<lambda>name. Inl (ErrText ''invalid path''))\<rparr>"

definition modTask :: "string \<Rightarrow> Request" where
  "modTask mode =
     \<lparr>Module = ''mod'', Version = ''v1.2.3'', Suffix = '''', Mode = mode,
      ImportedBy = 12, Insecure = False\<rparr>"

text \<open>The options and the request of \<open>TestNewTaskRequest\<close>.\<close>

definition testOptions :: Options where
  "testOptions = \<lparr>Namespace = ''test'', TaskNameSuffix = ''suf'', DisableProxyFetch = False\<rparr>"

definition testRequest :: Request where
  "testRequest =
     \<lparr>Module = ''mod'', Version = ''v1.2.3'', Suffix = '''', Mode = ''test'',
      ImportedBy = 0, Insecure = True\<rparr>"


section \<open>Verified properties\<close>

subsection \<open>Substrings\<close>

text \<open>\<open>Contains\<close> is the substring test.\<close>

lemma Contains_iff: "Contains s sub \<longleftrightarrow> (\<exists>p q. s = p @ sub @ q)"
proof
  show "Contains s sub \<Longrightarrow> \<exists>p q. s = p @ sub @ q"
  proof (induction s)
    case Nil
    then show ?case by simp
  next
    case (Cons c cs)
    from Cons.prems have "take (length sub) (c # cs) = sub \<or> Contains cs sub" by simp
    then show ?case
    proof
      assume "take (length sub) (c # cs) = sub"
      then have "c # cs = [] @ sub @ drop (length sub) (c # cs)"
        by (metis append_Nil append_take_drop_id)
      then show ?thesis by blast
    next
      assume "Contains cs sub"
      then obtain p q where "cs = p @ sub @ q" using Cons.IH by blast
      then have "c # cs = (c # p) @ sub @ q" by simp
      then show ?thesis by blast
    qed
  qed
next
  assume "\<exists>p q. s = p @ sub @ q"
  then obtain p q where s: "s = p @ sub @ q" by blast
  show "Contains s sub" unfolding s
  proof (induction p)
    case Nil
    have t: "take (length sub) (sub @ q) = sub" by simp
    show ?case
    proof (cases "sub @ q")
      case Nil
      then show ?thesis by simp
    next
      case (Cons a list)
      with t show ?thesis by simp
    qed
  next
    case (Cons a p)
    then show ?case by simp
  qed
qed

subsection \<open>parseGoMemLimit\<close>

lemma drop_last_two:
  assumes len: "2 \<le> length s"
  shows "drop (length s - 2) s = [s ! (length s - 2), s ! (length s - 1)]"
proof -
  have "length (drop (length s - 2) s) = 2" using len by simp
  then obtain a b where ab: "drop (length s - 2) s = [a, b]"
    by (metis (no_types, opaque_lifting) One_nat_def Suc_1 length_0_conv length_Suc_conv)
  have "a = drop (length s - 2) s ! 0" "b = drop (length s - 2) s ! 1" using ab by simp_all
  moreover have "Suc (length s - 2) = length s - 1" using len by arith
  ultimately have "a = s ! (length s - 2)" "b = s ! (length s - 1)" using len
    by simp_all
  then show ?thesis using ab by simp
qed

lemma isDecimal_last_digit: "isDecimal s \<Longrightarrow> isDigit (s ! (length s - 1))"
  by (cases s rule: rev_cases) (auto simp: isDecimal_def)

lemma isDigit_not_i: "isDigit c \<Longrightarrow> c \<noteq> CHR ''i''"
  by (auto simp: isDigit_def)

lemma parse_short: "length s < 2 \<Longrightarrow> parseGoMemLimit s = 0"
  by (simp add: parseGoMemLimit_def)

lemma unitMultiplier_Some:
  "unitMultiplier c = Some m \<Longrightarrow> c = CHR ''K'' \<or> c = CHR ''M'' \<or> c = CHR ''G''"
  by (auto simp: unitMultiplier_def split: if_splits)

lemma parse_malformed: "\<not> wellFormed s \<Longrightarrow> parseGoMemLimit s = 0"
proof (cases "length s < 2")
  case True
  then show ?thesis by (simp add: parse_short)
next
  case False
  assume nwf: "\<not> wellFormed s"
  have len: "2 \<le> length s" using False by simp
  show ?thesis
  proof (cases "s ! (length s - 1) = CHR ''i''")
    case True
    show ?thesis
    proof (cases "unitMultiplier (s ! (length s - 2))")
      case None
      then show ?thesis using True False by (simp add: parseGoMemLimit_def)
    next
      case (Some m)
      from unitMultiplier_Some[OF Some] True drop_last_two[OF len]
      have "drop (length s - 2) s \<in> {''Ki'', ''Mi'', ''Gi''}" by auto
      with nwf len have "\<not> isDecimal (take (length s - 2) s)" by (auto simp: wellFormed_def)
      then have "ParseUint (take (length s - 2) s) = None" by (simp add: ParseUint_def)
      then show ?thesis using True False Some by (simp add: parseGoMemLimit_def)
    qed
  next
    case notI: False
    from nwf have "\<not> isDecimal s" by (simp add: wellFormed_def)
    then have "ParseUint s = None" by (simp add: ParseUint_def)
    then show ?thesis using notI False by (simp add: parseGoMemLimit_def)
  qed
qed

lemma parse_unit:
  assumes d: "isDecimal d" and u: "unitMultiplier c = Some m"
    and fits: "decimal d * unat m < 2 ^ 64"
  shows "unat (parseGoMemLimit (d @ [c, CHR ''i''])) = decimal d * unat m"
proof -
  have m1: "1 \<le> unat m" using u by (auto simp: unitMultiplier_def split: if_splits)
  have "decimal d * 1 \<le> decimal d * unat m" using m1 by (rule mult_le_mono2)
  then have "decimal d \<le> decimal d * unat m" by (simp only: mult_1_right)
  then have dlt: "decimal d < 2 ^ 64" using fits by (rule order.strict_trans1)
  then have pu: "ParseUint d = Some (word_of_nat (decimal d))"
    using d by (simp add: ParseUint_def)
  have "parseGoMemLimit (d @ [c, CHR ''i'']) = word_of_nat (decimal d) * m"
    using pu u by (simp add: parseGoMemLimit_def nth_append)
  moreover have "unat (word_of_nat (decimal d) :: 64 word) = decimal d"
    using dlt by (simp add: unat_of_nat)
  ultimately show ?thesis using fits
    by (simp add: unat_word_ariths)
qed

lemma parse_bare:
  assumes d: "isDecimal d" and len: "2 \<le> length d" and fits: "decimal d < 2 ^ 64"
  shows "unat (parseGoMemLimit d) = decimal d"
proof -
  have "d ! (length d - 1) \<noteq> CHR ''i''"
    using isDecimal_last_digit[OF d] isDigit_not_i by blast
  moreover have "ParseUint d = Some (word_of_nat (decimal d))"
    using d fits by (simp add: ParseUint_def)
  ultimately have "parseGoMemLimit d = word_of_nat (decimal d)"
    using len by (simp add: parseGoMemLimit_def)
  then show ?thesis using fits by (simp add: unat_of_nat)
qed

text \<open>
  C10, as the code has it. \<open>parseGoMemLimit\<close> returns 0 for every string shorter than
  two bytes (so for \<open>5\<close>) and for every malformed string. For a decimal number followed
  by \<open>Ki\<close>, \<open>Mi\<close> or \<open>Gi\<close> it returns the number times 1024, \<open>1024 ^ 2\<close> or \<open>1024 ^ 3\<close>, and
  a bare decimal number of two digits or more is returned unchanged, in both cases
  provided the result is below \<open>2 ^ 64\<close>.
\<close>

theorem parseGoMemLimit_in_range:
  "(length s < 2 \<longrightarrow> parseGoMemLimit s = 0)
   \<and> (\<not> wellFormed t \<longrightarrow> parseGoMemLimit t = 0)
   \<and> (isDecimal k \<and> decimal k * 1024 < 2 ^ 64
        \<longrightarrow> unat (parseGoMemLimit (k @ ''Ki'')) = decimal k * 1024)
   \<and> (isDecimal m \<and> decimal m * (1024 * 1024) < 2 ^ 64
        \<longrightarrow> unat (parseGoMemLimit (m @ ''Mi'')) = decimal m * (1024 * 1024))
   \<and> (isDecimal g \<and> decimal g * (1024 * 1024 * 1024) < 2 ^ 64
        \<longrightarrow> unat (parseGoMemLimit (g @ ''Gi'')) = decimal g * (1024 * 1024 * 1024))
   \<and> (isDecimal d \<and> 2 \<le> length d \<and> decimal d < 2 ^ 64
        \<longrightarrow> unat (parseGoMemLimit d) = decimal d)"
proof -
  have K: "unitMultiplier (CHR ''K'') = Some 1024"
    and M: "unitMultiplier (CHR ''M'') = Some (1024 * 1024)"
    and G: "unitMultiplier (CHR ''G'') = Some (1024 * 1024 * 1024)"
    by (simp_all add: unitMultiplier_def)
  have "unat (parseGoMemLimit (k @ ''Ki'')) = decimal k * 1024"
    if "isDecimal k" "decimal k * 1024 < 2 ^ 64"
    using parse_unit[OF that(1) K] that(2) by simp
  moreover have "unat (parseGoMemLimit (m @ ''Mi'')) = decimal m * (1024 * 1024)"
    if "isDecimal m" "decimal m * (1024 * 1024) < 2 ^ 64"
    using parse_unit[OF that(1) M] that(2) by simp
  moreover have "unat (parseGoMemLimit (g @ ''Gi'')) = decimal g * (1024 * 1024 * 1024)"
    if "isDecimal g" "decimal g * (1024 * 1024 * 1024) < 2 ^ 64"
    using parse_unit[OF that(1) G] that(2) by simp
  ultimately show ?thesis
    using parse_short parse_malformed parse_bare by blast
qed

theorem parseGoMemLimit_in_range_witness:
  "parseGoMemLimit ''5'' = 0
   \<and> parseGoMemLimit ''4GiB'' = 0
   \<and> unat (parseGoMemLimit ''12Ki'') = 12288
   \<and> unat (parseGoMemLimit ''3Mi'') = 3145728
   \<and> unat (parseGoMemLimit ''2Gi'') = 2147483648
   \<and> unat (parseGoMemLimit ''4096'') = 4096"
proof -
  have "length ''5'' < 2" by simp
  moreover have "\<not> wellFormed ''4GiB''"
    by (simp add: wellFormed_def isDecimal_def isDigit_def)
  moreover have "isDecimal ''12'' \<and> decimal ''12'' * 1024 < 2 ^ 64"
    by (simp add: isDecimal_def isDigit_def decimal_def digitVal_def)
  moreover have "isDecimal ''3'' \<and> decimal ''3'' * (1024 * 1024) < 2 ^ 64"
    by (simp add: isDecimal_def isDigit_def decimal_def digitVal_def)
  moreover have "isDecimal ''2'' \<and> decimal ''2'' * (1024 * 1024 * 1024) < 2 ^ 64"
    by (simp add: isDecimal_def isDigit_def decimal_def digitVal_def)
  moreover have "isDecimal ''4096'' \<and> 2 \<le> length ''4096'' \<and> decimal ''4096'' < 2 ^ 64"
    by (simp add: isDecimal_def isDigit_def decimal_def digitVal_def)
  ultimately show ?thesis
    using parseGoMemLimit_in_range[of "''5''" "''4GiB''" "''12''" "''3''" "''2''" "''4096''"]
    by (simp add: decimal_def digitVal_def)
qed

text \<open>
  C10 as stated fails: 18446744073709551616 is a bare decimal number of twenty digits,
  and it is not returned unchanged. It is \<open>2 ^ 64\<close>, \<open>ParseUint\<close> reports a range error,
  and the result is 0.
\<close>

theorem parseGoMemLimit_out_of_range:
  "isDecimal ''18446744073709551616''
   \<and> decimal ''18446744073709551616'' = 18446744073709551616
   \<and> parseGoMemLimit ''18446744073709551616'' = 0"
  by (simp add: parseGoMemLimit_def ParseUint_def isDecimal_def isDigit_def decimal_def
      digitVal_def)

subsection \<open>The memory monitor\<close>

lemma samplesOf_take_CtxDone: "samplesOf (take n [CtxDone]) = []"
  by (cases n) simp_all

lemma samplesOf_append: "samplesOf (xs @ ys) = samplesOf xs @ samplesOf ys"
  by (induction xs rule: samplesOf.induct) simp_all

lemma samplesOf_take_subset: "set (samplesOf (take n es)) \<subseteq> set (samplesOf es)"
proof -
  have "samplesOf es = samplesOf (take n es) @ samplesOf (drop n es)"
    by (metis append_take_drop_id samplesOf_append)
  then show ?thesis by simp
qed

lemma samplesOf_drop_subset: "set (samplesOf (drop n es)) \<subseteq> set (samplesOf es)"
proof -
  have "samplesOf es = samplesOf (take n es) @ samplesOf (drop n es)"
    by (metis append_take_drop_id samplesOf_append)
  then show ?thesis by simp
qed

lemma peak_foldl_sample: "peak (foldl (sample limit) m xs) = foldl max (peak m) xs"
  by (induction xs arbitrary: m) (simp_all add: sample_def)

lemma cancelled_foldl_sample:
  "cancelled (foldl (sample limit) m xs) \<longleftrightarrow> cancelled m \<or> (\<exists>cur\<in>set xs. exceeds limit cur)"
  by (induction xs arbitrary: m) (auto simp: sample_def)

lemma stop_monitorAfter: "stop (monitorAfter limit es) = maxSample (samplesOf es)"
  by (simp add: stop_def monitorAfter_def maxSample_def peak_foldl_sample newMemMonitor_def)

lemma cancelled_monitorAfter:
  "cancelled (monitorAfter limit es) \<longleftrightarrow> (\<exists>cur\<in>set (samplesOf es). exceeds limit cur)"
  by (simp add: monitorAfter_def cancelled_foldl_sample newMemMonitor_def)

lemma waitFirst_ContextDone:
  "waitFirst limit m k es = Some (ContextDone, k') \<Longrightarrow> CtxDone \<notin> set es \<Longrightarrow>
     \<exists>cur\<in>set (samplesOf es). exceeds limit cur \<or> cancelled m"
proof (induction limit m k es rule: waitFirst.induct)
  case (1 limit m k)
  then show ?case by simp
next
  case (2 limit m k cur es)
  show ?case
  proof (cases "cancelled (sample limit m cur)")
    case True
    then show ?thesis by (auto simp: sample_def)
  next
    case False
    with 2 have "\<exists>c\<in>set (samplesOf es). exceeds limit c \<or> cancelled (sample limit m cur)"
      by simp
    with False show ?thesis by auto
  qed
next
  case (3 limit m k res err es)
  then show ?case by simp
next
  case (4 limit m k es)
  then show ?case by simp
qed

text \<open>
  While the context of the caller is not done, the \<open>select\<close> takes the case
  \<open><-cctx.Done()\<close> only after a sample has exceeded a positive limit.
\<close>

lemma context_done_needs_trip:
  assumes nodone: "CtxDone \<notin> set events"
    and sel: "selectCase limit events entered picksResult = Some (ContextDone, k)"
  shows "\<exists>cur\<in>set (samplesOf events). exceeds limit cur"
proof -
  let ?before = "take entered events"
  have nb: "CtxDone \<notin> set ?before" using nodone by (meson in_set_takeD)
  have nd: "CtxDone \<notin> set (drop entered events)" using nodone by (meson in_set_dropD)
  show ?thesis
  proof (cases "doneReady limit ?before")
    case True
    with nb have "cancelled (monitorAfter limit ?before)" by (simp add: doneReady_def)
    then obtain cur where "cur \<in> set (samplesOf ?before)" "exceeds limit cur"
      by (auto simp: cancelled_monitorAfter)
    with samplesOf_take_subset show ?thesis by blast
  next
    case False
    then have nc: "\<not> cancelled (monitorAfter limit ?before)" by (simp add: doneReady_def)
    from sel False have
      "waitFirst limit (monitorAfter limit ?before) (length ?before) (drop entered events)
         = Some (ContextDone, k)"
      by (auto simp: selectCase_def Let_def split: option.splits if_splits)
    from waitFirst_ContextDone[OF this nd] nc
    obtain cur where "cur \<in> set (samplesOf (drop entered events))" "exceeds limit cur"
      by auto
    with samplesOf_drop_subset show ?thesis by blast
  qed
qed

text \<open>The peak returned is the maximum of the samples taken until \<open>stop\<close> is called.\<close>

lemma runWithMemoryMonitor_peak:
  "runWithMemoryMonitor limit events entered picksResult delay = Some (res, mem, err) \<Longrightarrow>
     \<exists>k. mem = maxSample (samplesOf (take (k + delay) events))"
  by (auto simp: runWithMemoryMonitor_def Let_def stop_monitorAfter
      split: option.splits select_case.splits)

text \<open>
  C4. \<open>runWithMemoryMonitor\<close> returns \<open>ScanModuleMemoryLimitExceeded\<close> without a limit
  and without a sample: with the limit 0 (\<open>GOMEMLIMIT\<close> unset), when the context of the
  caller is done before \<open>f\<close> returns and the monitor has taken no sample, it returns no
  result, the peak 0 and that error, whenever the goroutine reaches the \<open>select\<close>,
  whichever case Go picks and whenever \<open>stop\<close> is called. The case \<open><-cctx.Done()\<close> is
  the only one ready, since \<open>cctx\<close> is derived from the context of the caller.
\<close>

theorem memory_limit_error_without_sample:
  "runWithMemoryMonitor 0 [CtxDone] entered picksResult delay
     = Some (None, 0, Some (ErrSentinel ScanModuleMemoryLimitExceeded))"
proof -
  have peak0: "\<And>n. stop (monitorAfter 0 (take n [CtxDone])) = 0"
    by (simp add: stop_monitorAfter samplesOf_take_CtxDone maxSample_def)
  have sel: "\<exists>k. selectCase 0 [CtxDone] entered picksResult = Some (ContextDone, k)"
  proof (cases entered)
    case 0
    then show ?thesis
      by (simp add: selectCase_def doneReady_def monitorAfter_def newMemMonitor_def)
  next
    case (Suc n)
    then show ?thesis
      by (simp add: selectCase_def doneReady_def)
  qed
  then obtain k where "selectCase 0 [CtxDone] entered picksResult = Some (ContextDone, k)"
    by blast
  then show ?thesis by (simp add: runWithMemoryMonitor_def Let_def peak0)
qed

subsection \<open>Errors of package loading\<close>

text \<open>
  C5. When the download has succeeded and package loading fails with the error \<open>e\<close>
  (the error of \<open>load.Packages\<close>, or else the printed list of package errors),
  \<open>runSourceScanInsecure\<close> returns \<open>e\<close> wrapping: the no-go.mod error if \<open>go.mod\<close> is
  missing; else the no-go.sum error if \<open>go.sum\<close> is missing; else the
  no-required-module error if the text of \<open>e\<close> contains \<open>no required module\<close>; else
  the missing-go.sum-entry error if it contains \<open>missing go.sum entry\<close>; otherwise
  the plain load-packages error.
\<close>

theorem load_error_precedence:
  assumes dl: "Download W = None"
    and fails: "snd (load_Packages W) = Some e
                \<or> (snd (load_Packages W) = None \<and> fst (load_Packages W) \<noteq> []
                    \<and> e = ErrText (formatErrors (derrorText W) (fst (load_Packages W))))"
  shows "runSourceScanInsecure W s stats =
           Some (Failed (ErrWrap e
             (if stat_go_mod W = StatNotExist then ScanModuleLoadPackagesNoGoModError
              else if stat_go_sum W = StatNotExist then ScanModuleLoadPackagesNoGoSumError
              else if Contains (Error_text (derrorText W) e) ''no required module''
                then ScanModuleLoadPackagesNoRequiredModuleError
              else if Contains (Error_text (derrorText W) e) ''missing go.sum entry''
                then ScanModuleLoadPackagesMissingGoSumEntryError
              else ScanModuleLoadPackagesError)), stats)"
proof -
  have fe: "\<And>st. fileExists st = (st \<noteq> StatNotExist)"
    by (simp add: fileExists_def split: stat_result.splits)
  from fails show ?thesis
    by (auto simp: runSourceScanInsecure_def dl Let_def fe isNoRequiredModule_def
        isMissingGoSumEntry_def)
qed

theorem load_error_precedence_witness:
  "runSourceScanInsecure
       (quietWorld\<lparr>load_Packages := ([], Some (ErrText ''no required module; missing go.sum entry'')),
                   stat_go_sum := StatNotExist\<rparr>)
       quietScanner \<lparr>scanMemory = 0, pkgsMemory = 0\<rparr>
     = Some (Failed (ErrWrap (ErrText ''no required module; missing go.sum entry'')
                       ScanModuleLoadPackagesNoGoSumError),
             \<lparr>scanMemory = 0, pkgsMemory = 0\<rparr>)
   \<and> runSourceScanInsecure
       (quietWorld\<lparr>load_Packages := ([ErrText ''a: missing go.sum entry'', ErrText ''b''], None)\<rparr>)
       quietScanner \<lparr>scanMemory = 0, pkgsMemory = 0\<rparr>
     = Some (Failed (ErrWrap (ErrText ''[a: missing go.sum entry b]'')
                       ScanModuleLoadPackagesMissingGoSumEntryError),
             \<lparr>scanMemory = 0, pkgsMemory = 0\<rparr>)"
proof -
  let ?W1 = "quietWorld\<lparr>load_Packages := ([], Some (ErrText ''no required module; missing go.sum entry'')),
                        stat_go_sum := StatNotExist\<rparr>"
  let ?W2 = "quietWorld\<lparr>load_Packages := ([ErrText ''a: missing go.sum entry'', ErrText ''b''], None)\<rparr>"
  have d1: "Download ?W1 = None" and d2: "Download ?W2 = None"
    by (simp_all add: quietWorld_def)
  have f1: "snd (load_Packages ?W1) = Some (ErrText ''no required module; missing go.sum entry'')
     \<or> (snd (load_Packages ?W1) = None \<and> fst (load_Packages ?W1) \<noteq> []
          \<and> ErrText ''no required module; missing go.sum entry''
              = ErrText (formatErrors (derrorText ?W1) (fst (load_Packages ?W1))))"
    by simp
  have f2: "snd (load_Packages ?W2) = Some (ErrText ''[a: missing go.sum entry b]'')
     \<or> (snd (load_Packages ?W2) = None \<and> fst (load_Packages ?W2) \<noteq> []
          \<and> ErrText ''[a: missing go.sum entry b]''
              = ErrText (formatErrors (derrorText ?W2) (fst (load_Packages ?W2))))"
    by (simp add: formatErrors_def)
  from load_error_precedence[OF d1 f1, of quietScanner "\<lparr>scanMemory = 0, pkgsMemory = 0\<rparr>"]
       load_error_precedence[OF d2 f2, of quietScanner "\<lparr>scanMemory = 0, pkgsMemory = 0\<rparr>"]
  show ?thesis by (simp add: quietWorld_def)
qed

subsection \<open>The scan handler\<close>

lemmas scan_defs = handleScan_def ScanModule_def runScanModule_def runScanModuleInsecure_def
  runSourceScanInsecure_def scanBody_def runWithMemoryMonitor_def selectCase_def doneReady_def
  monitorAfter_def newMemMonitor_def sample_def exceeds_def stop_def
  readVulncheckWorkVersions_def newScanner_def lookupWorkVersion_def Equal_def
  enterScan_def exitScan_def memSubtract_def parseGoMemLimit_def AddError_def
  isVulnDBConnection_def fileExists_def ModeVTA_def ModeBinary_def Wrap_def

lemmas quiet_defs = quietWorld_def quietServer_def quietGlobals_def quietScanner_def
  quietRequest_def shouldSkip_declared_def storedVersion_def

lemma readVulncheckWorkVersions_events:
  "readVulncheckWorkVersions W h = (tr1, h1, e) \<Longrightarrow>
     (tr1 = [] \<or> tr1 = [EvReadWorkVersions])
     \<and> cfg_Insecure h1 = cfg_Insecure h \<and> bqClient_h h1 = bqClient_h h
     \<and> cfg_BinaryBucket h1 = cfg_BinaryBucket h"
  by (auto simp: readVulncheckWorkVersions_def split: if_splits)

lemma newScanner_fields:
  "newScanner W h = Inr sc \<Longrightarrow> insecure sc = cfg_Insecure h \<and> bqClient sc = bqClient_h h"
  by (auto simp: newScanner_def split: sum.splits if_splits option.splits)

lemma ScanModule_analyze:
  assumes "ScanModule W s sreq G = Some (tr, final, G')" and "EvAnalyze i mode \<in> set tr"
  shows "i = insecure s"
  using assms
  by (auto simp: ScanModule_def runScanModule_def Let_def
      split: if_splits sum.splits option.splits prod.splits)

lemma ScanModule_no_shouldSkip:
  assumes "ScanModule W s sreq G = Some (tr, final, G')"
  shows "\<forall>e\<in>set tr. \<not> isShouldSkip e"
  using assms
  by (auto simp: ScanModule_def runScanModule_def Let_def isShouldSkip_def
      split: if_splits sum.splits option.splits prod.splits)

text \<open>
  C1. Let the request parse, the work versions be read (now or before) without error,
  and the scanner be made. If the work version stored for the module path and version of
  the request equals the work version of the scanner, \<open>handleScan\<close> returns success,
  leaves the globals as they were, and none of its events calls the proxy, runs the
  analyzer or appends a row.
\<close>

theorem unchanged_work_version_skips:
  assumes parse: "ParseRequest W = Inr sreq"
    and read: "readVulncheckWorkVersions W h = (tr1, h1, None)"
    and sc: "newScanner W h1 = Inr sc"
    and stored: "lookupWorkVersion (storedWorkVersions h1) (Module sreq, Version sreq) = Some wv"
    and same: "Equal (workVersion sc) (Some wv)"
  shows "\<exists>tr h'. handleScan W G h = Some (None, tr, h', G)
           \<and> (\<forall>e\<in>set tr. \<not> fetchesOrRecords e)"
proof -
  have tr1: "\<forall>e\<in>set tr1. \<not> fetchesOrRecords e"
    using readVulncheckWorkVersions_events[OF read] by (auto simp: fetchesOrRecords_def)
  show ?thesis
  proof (cases "shouldSkip G (Module sreq)")
    case True
    then have "handleScan W G h = Some (None, [EvShouldSkip (Module sreq)], h, G)"
      by (simp add: handleScan_def parse Let_def)
    then show ?thesis by (simp add: fetchesOrRecords_def)
  next
    case False
    then have "handleScan W G h
        = Some (None, [EvShouldSkip (Module sreq)] @ tr1 @ [EvNewScanner, EvCompareWorkVersion],
                h1, G)"
      using stored same by (simp add: handleScan_def parse read sc Let_def)
    then show ?thesis using tr1 by (simp add: fetchesOrRecords_def)
  qed
qed

theorem unchanged_work_version_skips_witness:
  "\<exists>tr h'. handleScan unchangedWorld quietGlobals quietServer = Some (None, tr, h', quietGlobals)
           \<and> (\<forall>e\<in>set tr. \<not> fetchesOrRecords e)"
proof -
  let ?sreq = "\<lparr>Module = ''mod'', Version = ''v1.2.3'', Suffix = '''', Mode = '''',
                 ImportedBy = 0, Insecure = False\<rparr>"
  let ?h1 = "quietServer\<lparr>storedWorkVersions := Some [(''mod'', ''v1.2.3'') \<mapsto> storedVersion]\<rparr>"
  let ?sc = "\<lparr>bqClient = True, workVersion = storedVersion, goMemLimit = 0, gcsBucket = None,
               insecure = False\<rparr>"
  have parse: "ParseRequest unchangedWorld = Inr ?sreq"
    by (simp add: unchangedWorld_def quietWorld_def)
  have read: "readVulncheckWorkVersions unchangedWorld quietServer = ([EvReadWorkVersions], ?h1, None)"
    by (simp add: readVulncheckWorkVersions_def unchangedWorld_def quietWorld_def quietServer_def)
  have sc: "newScanner unchangedWorld ?h1 = Inr ?sc"
    by (simp add: newScanner_def unchangedWorld_def quietWorld_def quietServer_def
        storedVersion_def parseGoMemLimit_def)
  have stored: "lookupWorkVersion (storedWorkVersions ?h1) (Module ?sreq, Version ?sreq)
                  = Some storedVersion"
    by (simp add: lookupWorkVersion_def)
  have same: "Equal (workVersion ?sc) (Some storedVersion)"
    by (simp add: Equal_def)
  from unchanged_work_version_skips[OF parse read sc stored same] show ?thesis .
qed

text \<open>
  C7. Whenever \<open>handleScan\<close> runs the analyzer, the scanner's insecure flag is the one
  of the request if the form value \<open>insecure\<close> is not empty, and the configured default
  of the worker if it is empty, which is also what an absent parameter reads as.
\<close>

theorem insecure_override:
  assumes parse: "ParseRequest W = Inr sreq"
    and ret: "handleScan W G h = Some (err, tr, h', G')"
    and ev: "EvAnalyze i mode \<in> set tr"
  shows "i = (if FormValue W ''insecure'' \<noteq> '''' then Insecure sreq else cfg_Insecure h)"
proof -
  obtain tr1 h1 e1 where read: "readVulncheckWorkVersions W h = (tr1, h1, e1)"
    by (cases "readVulncheckWorkVersions W h") auto
  note facts = readVulncheckWorkVersions_events[OF read]
  have cfg: "cfg_Insecure h1 = cfg_Insecure h" using facts by simp
  have tr1: "EvAnalyze i mode \<notin> set tr1" using facts by auto
  show ?thesis
  proof (cases "newScanner W h1")
    case (Inl e)
    then show ?thesis using ret ev tr1
      by (auto simp: handleScan_def parse read Let_def Wrap_def split: if_splits option.splits)
  next
    case (Inr sc0)
    have ins: "insecure sc0 = cfg_Insecure h" using newScanner_fields[OF Inr] cfg by simp
    let ?sreq = "if Mode sreq = '''' then sreq\<lparr>Mode := ModeVTA\<rparr> else sreq"
    let ?sc = "if FormValue W ''insecure'' \<noteq> '''' then sc0\<lparr>insecure := Insecure ?sreq\<rparr> else sc0"
    have target: "insecure ?sc
        = (if FormValue W ''insecure'' \<noteq> '''' then Insecure sreq else cfg_Insecure h)"
      using ins by simp
    from ret ev tr1 obtain tr3 final where
      sm: "ScanModule W ?sc ?sreq G = Some (tr3, final, G')" and in3: "EvAnalyze i mode \<in> set tr3"
      by (auto simp: handleScan_def parse read Inr Let_def Wrap_def
          split: if_splits option.splits)
    from ScanModule_analyze[OF sm in3] target show ?thesis by simp
  qed
qed

theorem insecure_override_witness:
  "(\<exists>err tr h' G'.
      handleScan insecureWorld quietGlobals quietServer = Some (err, tr, h', G')
      \<and> EvAnalyze True ''VTA'' \<in> set tr \<and> EvAnalyze False ''VTA'' \<notin> set tr)
   \<and> (\<exists>err tr h' G'.
      handleScan quietWorld quietGlobals (quietServer\<lparr>cfg_Insecure := True\<rparr>)
        = Some (err, tr, h', G')
      \<and> EvAnalyze True ''VTA'' \<in> set tr \<and> EvAnalyze False ''VTA'' \<notin> set tr)"
proof -
  let ?sreq1 = "\<lparr>Module = ''mod'', Version = ''v1.2.3'', Suffix = '''', Mode = '''',
                  ImportedBy = 0, Insecure = True\<rparr>"
  let ?sreq2 = "\<lparr>Module = ''mod'', Version = ''v1.2.3'', Suffix = '''', Mode = '''',
                  ImportedBy = 0, Insecure = False\<rparr>"
  let ?h2 = "quietServer\<lparr>cfg_Insecure := True\<rparr>"
  have parse1: "ParseRequest insecureWorld = Inr ?sreq1"
    by (simp add: insecureWorld_def quietWorld_def)
  have parse2: "ParseRequest quietWorld = Inr ?sreq2"
    by (simp add: quietWorld_def)
  have "\<exists>err tr h' G'. handleScan insecureWorld quietGlobals quietServer = Some (err, tr, h', G')
      \<and> EvAnalyze True ''VTA'' \<in> set tr"
    by (simp add: scan_defs insecureWorld_def quiet_defs Let_def)
  then obtain err1 tr1 h1 G1 where
    ret1: "handleScan insecureWorld quietGlobals quietServer = Some (err1, tr1, h1, G1)"
    and ev1: "EvAnalyze True ''VTA'' \<in> set tr1" by blast
  have no1: "EvAnalyze False ''VTA'' \<notin> set tr1"
  proof
    assume "EvAnalyze False ''VTA'' \<in> set tr1"
    from insecure_override[OF parse1 ret1 this] show False
      by (simp add: insecureWorld_def)
  qed
  have "\<exists>err tr h' G'. handleScan quietWorld quietGlobals ?h2 = Some (err, tr, h', G')
      \<and> EvAnalyze True ''VTA'' \<in> set tr"
    by (simp add: scan_defs quiet_defs Let_def)
  then obtain err2 tr2 h2 G2 where
    ret2: "handleScan quietWorld quietGlobals ?h2 = Some (err2, tr2, h2, G2)"
    and ev2: "EvAnalyze True ''VTA'' \<in> set tr2" by blast
  have no2: "EvAnalyze False ''VTA'' \<notin> set tr2"
  proof
    assume "EvAnalyze False ''VTA'' \<in> set tr2"
    from insecure_override[OF parse2 ret2 this] show False
      by (simp add: quietWorld_def)
  qed
  from ret1 ev1 no1 ret2 ev2 no2 show ?thesis by blast
qed

text \<open>
  C6, as the code has it. On a request that parses, \<open>handleScan\<close> skips a deny-listed
  module at once: it returns, with success, having only consulted the deny-list
  \<open>shouldSkip\<close>; the work versions are neither read nor compared, the server and the
  package-level variables are as before. And every run of \<open>handleScan\<close> on such a
  request that returns begins by consulting the deny-list, consults it once, and
  compares no work version before that.
\<close>

theorem shouldSkip_consulted_first:
  assumes parse: "ParseRequest W = Inr sreq"
  shows "(shouldSkip G (Module sreq) \<longrightarrow>
            handleScan W G h = Some (None, [EvShouldSkip (Module sreq)], h, G))
       \<and> (handleScan W G h = Some (err, tr, h', G') \<longrightarrow>
            (\<exists>rest. tr = EvShouldSkip (Module sreq) # rest
               \<and> (\<forall>e\<in>set rest. \<not> isShouldSkip e)
               \<and> \<not> comparesBeforeShouldSkip tr
               \<and> (shouldSkip G (Module sreq) \<longrightarrow> rest = [] \<and> err = None)))"
proof -
  have listed: "handleScan W G h = Some (None, [EvShouldSkip (Module sreq)], h, G)"
    if "shouldSkip G (Module sreq)"
    using that by (simp add: handleScan_def parse Let_def)
  have returned: "\<exists>rest. tr = EvShouldSkip (Module sreq) # rest
               \<and> (\<forall>e\<in>set rest. \<not> isShouldSkip e)
               \<and> \<not> comparesBeforeShouldSkip tr
               \<and> (shouldSkip G (Module sreq) \<longrightarrow> rest = [] \<and> err = None)"
    if ret: "handleScan W G h = Some (err, tr, h', G')"
  proof -
    obtain tr1 h1 e1 where read: "readVulncheckWorkVersions W h = (tr1, h1, e1)"
      by (cases "readVulncheckWorkVersions W h") auto
    have tr1: "\<forall>e\<in>set tr1. \<not> isShouldSkip e"
      using readVulncheckWorkVersions_events[OF read] by (auto simp: isShouldSkip_def)
    have head: "\<And>rest. tr = EvShouldSkip (Module sreq) # rest \<Longrightarrow> \<not> comparesBeforeShouldSkip tr"
      by (simp add: comparesBeforeShouldSkip_def isShouldSkip_def)
    have "\<exists>rest. tr = EvShouldSkip (Module sreq) # rest
             \<and> (\<forall>e\<in>set rest. \<not> isShouldSkip e)
             \<and> (shouldSkip G (Module sreq) \<longrightarrow> rest = [] \<and> err = None)"
      using ret tr1
      by (auto simp: handleScan_def parse read Let_def isShouldSkip_def
          split: if_splits option.splits sum.splits dest!: ScanModule_no_shouldSkip)
    then show ?thesis using head by blast
  qed
  from listed returned show ?thesis by blast
qed

theorem shouldSkip_consulted_first_witness:
  "handleScan quietWorld (quietGlobals\<lparr>shouldSkip := (\<lambda>m. m = ''mod'')\<rparr>) quietServer
     = Some (None, [EvShouldSkip ''mod''], quietServer,
             quietGlobals\<lparr>shouldSkip := (\<lambda>m. m = ''mod'')\<rparr>)
   \<and> (\<exists>rest. [EvShouldSkip ''mod''] = EvShouldSkip ''mod'' # rest
           \<and> (\<forall>e\<in>set rest. \<not> isShouldSkip e)
           \<and> \<not> comparesBeforeShouldSkip [EvShouldSkip ''mod'']
           \<and> rest = [])"
proof -
  let ?sreq = "\<lparr>Module = ''mod'', Version = ''v1.2.3'', Suffix = '''', Mode = '''',
                 ImportedBy = 0, Insecure = False\<rparr>"
  let ?G = "quietGlobals\<lparr>shouldSkip := (\<lambda>m. m = ''mod'')\<rparr>"
  have parse: "ParseRequest quietWorld = Inr ?sreq"
    by (simp add: quietWorld_def)
  have listed: "shouldSkip ?G (Module ?sreq)" by simp
  note t = shouldSkip_consulted_first[OF parse, where G = ?G and h = quietServer
      and err = None and tr = "[EvShouldSkip ''mod'']" and h' = quietServer and G' = ?G]
  from t listed
  have ret: "handleScan quietWorld ?G quietServer
               = Some (None, [EvShouldSkip ''mod''], quietServer, ?G)"
    by simp
  from t listed ret show ?thesis by auto
qed

text \<open>
  C6 as stated fails. With the deny-list as the source declares it (empty), the request
  for \<open>mod@v1.2.3\<close> whose stored work version is the current one leaves these events:
  the deny-list is consulted first, the work versions are compared last.
\<close>

theorem work_version_compared_after_shouldSkip:
  "trace (handleScan unchangedWorld quietGlobals quietServer)
     = Some [EvShouldSkip ''mod'', EvReadWorkVersions, EvNewScanner, EvCompareWorkVersion]
   \<and> \<not> comparesBeforeShouldSkip
         [EvShouldSkip ''mod'', EvReadWorkVersions, EvNewScanner, EvCompareWorkVersion]"
  by (simp add: trace_def scan_defs unchangedWorld_def quiet_defs Let_def
      comparesBeforeShouldSkip_def isShouldSkip_def)

subsection \<open>The result row\<close>

lemma runScanModule_uploads_nothing:
  "runScanModule W s mode G stats = Some (res, tr, stats', G') \<Longrightarrow> uploadedRows tr = []"
  by (auto simp: runScanModule_def Let_def uploadedRows_def split: option.splits prod.splits if_splits)

lemma uploadedRows_append: "uploadedRows (xs @ ys) = uploadedRows xs @ uploadedRows ys"
  by (simp add: uploadedRows_def)

lemma uploadedRows_Cons_other: "uploadedRows (EvProxyInfo m v # tr) = uploadedRows tr"
  by (simp add: uploadedRows_def)

lemma uploadedRows_single: "uploadedRows [EvUpload row] = [row]"
  by (simp add: uploadedRows_def)

lemma runScanModule_not_both:
  "runScanModule W s mode G stats = Some ((vulns, err), tr, stats', G') \<Longrightarrow>
     err = None \<or> vulns = []"
  by (auto simp: runScanModule_def Let_def split: option.splits prod.splits if_splits outcome.splits)

text \<open>
  C3, as the code has it. A row that \<open>ScanModule\<close> hands to the analytics store carries
  the outcome of \<open>runScanModule\<close>: after a success the vulns found (there may be none)
  and no error; after a failure the error and no vulns. So a row never has both
  fields populated.
\<close>

theorem uploaded_row_outcome:
  assumes run: "ScanModule W s sreq G = Some (tr, final, G')"
    and up: "row \<in> set (uploadedRows tr)"
  shows "\<exists>vulns err tr1 stats G1.
      runScanModule W s (Mode sreq) G \<lparr>scanMemory = 0, pkgsMemory = 0\<rparr>
        = Some ((vulns, err), tr1, stats, G1)
      \<and> (err = None \<longrightarrow> Vulns row = vulns \<and> Error row = None)
      \<and> (\<forall>e. err = Some e \<longrightarrow> Vulns row = [] \<and> Error row = Some e)
      \<and> \<not> (Vulns row \<noteq> [] \<and> Error row \<noteq> None)"
proof -
  have notstd: "Module sreq \<noteq> ''std''"
    using run up by (auto simp: ScanModule_def uploadedRows_def)
  obtain v where info: "proxy_Info W = Inr v"
    using run up notstd
    by (cases "proxy_Info W") (auto simp: ScanModule_def Let_def uploadedRows_def)
  obtain vulns err tr1 stats G1 where
    rsm: "runScanModule W s (Mode sreq) G \<lparr>scanMemory = 0, pkgsMemory = 0\<rparr>
            = Some ((vulns, err), tr1, stats, G1)"
    using run notstd info
    by (cases "runScanModule W s (Mode sreq) G \<lparr>scanMemory = 0, pkgsMemory = 0\<rparr>")
       (auto simp: ScanModule_def Let_def)
  note quiet = runScanModule_uploads_nothing[OF rsm]
  have fields: "(err = None \<longrightarrow> Vulns row = vulns \<and> Error row = None)
      \<and> (\<forall>e. err = Some e \<longrightarrow> Vulns row = [] \<and> Error row = Some e)"
    using run up notstd info rsm quiet
    by (auto simp: ScanModule_def Let_def AddError_def uploadedRows_append
        uploadedRows_Cons_other uploadedRows_single split: if_splits option.splits)
  moreover have "\<not> (Vulns row \<noteq> [] \<and> Error row \<noteq> None)"
    using fields runScanModule_not_both[OF rsm] by (cases err) auto
  ultimately show ?thesis using rsm by blast
qed

theorem uploaded_row_outcome_witness:
  "\<exists>tr final G' row.
     ScanModule (quietWorld\<lparr>runScanModuleSandbox := Failed (ErrText ''exit status 1'')\<rparr>)
       quietScanner quietRequest quietGlobals = Some (tr, final, G')
     \<and> row \<in> set (uploadedRows tr)
     \<and> Vulns row = []
     \<and> Error row = Some (ErrWrap (ErrText ''exit status 1'') ScanModuleVulncheckError)"
proof -
  let ?W = "quietWorld\<lparr>runScanModuleSandbox := Failed (ErrText ''exit status 1'')\<rparr>"
  have rsm: "\<exists>tr1 stats G1. runScanModule ?W quietScanner (Mode quietRequest) quietGlobals
            \<lparr>scanMemory = 0, pkgsMemory = 0\<rparr>
            = Some (([], Some (ErrWrap (ErrText ''exit status 1'') ScanModuleVulncheckError)),
                    tr1, stats, G1)"
    by (simp add: scan_defs quiet_defs Let_def)
  have "\<exists>tr final G' row. ScanModule ?W quietScanner quietRequest quietGlobals = Some (tr, final, G')
     \<and> row \<in> set (uploadedRows tr)"
    by (simp add: scan_defs quiet_defs Let_def uploadedRows_def)
  then obtain tr final G' row where
    run: "ScanModule ?W quietScanner quietRequest quietGlobals = Some (tr, final, G')"
    and up: "row \<in> set (uploadedRows tr)" by blast
  from uploaded_row_outcome[OF run up] rsm
  have "Vulns row = [] \<and> Error row = Some (ErrWrap (ErrText ''exit status 1'') ScanModuleVulncheckError)"
    by auto
  with run up show ?thesis by blast
qed

text \<open>
  C3 as stated fails. The scan of \<open>mod@v1.2.3\<close> in the quiet world succeeds and finds
  nothing: one row is uploaded, and it has neither vulns nor an error.
\<close>

theorem successful_scan_without_findings:
  "uploadedOutcomes (ScanModule quietWorld quietScanner quietRequest quietGlobals)
     = Some [([], None)]"
  by (simp add: uploadedOutcomes_def scan_defs quiet_defs Let_def uploadedRows_def)

text \<open>
  When the upload fails, the scanner adds the \<open>BigQueryError\<close> to the row it holds,
  after the call: the row that was handed to the store has the findings and no error,
  the row in memory has both.
\<close>

lemma failed_upload_marks_row:
  "ScanModule
      (quietWorld\<lparr>runScanModuleSandbox :=
                    Returned [\<lparr>OSV_ID = ''GO-2022-0001'', ModPath = ''dep'', PkgPath = ''dep/p'',
                               Symbol = ''F'', CallSink = 1, ImportSink = 2, RequireSink = 3\<rparr>],
                  Upload := Some (ErrText ''HTTP response code 413'')\<rparr>)
      quietScanner quietRequest quietGlobals
   = Some (tr, final, G') \<Longrightarrow>
   map (\<lambda>row. (length (Vulns row), Error row)) (uploadedRows tr) = [(1, None)]
   \<and> map_option (\<lambda>row. (length (Vulns row), Error row)) final
       = Some (1, Some (ErrWrap (ErrText ''HTTP response code 413'') BigQueryError))"
  by (auto simp: scan_defs quiet_defs Let_def uploadedRows_def)

subsection \<open>The counter of active scans\<close>

lemma running_update:
  "i < length ps \<Longrightarrow>
     running (ps[i := v]) + (if ps ! i = Running then 1 else 0)
       = running ps + (if v = Running then 1 else 0)"
proof (induction ps arbitrary: i)
  case Nil
  then show ?case by simp
next
  case (Cons p ps)
  show ?case
  proof (cases i)
    case 0
    then show ?thesis by (simp add: running_def)
  next
    case (Suc j)
    with Cons.prems have "j < length ps" by simp
    from Cons.IH[OF this] Suc show ?thesis by (auto simp: running_def split: if_splits)
  qed
qed

lemma entries_snoc: "entries j (h @ [a]) = entries j h + (if a = Entered j then 1 else 0)"
  by (simp add: entries_def)

lemma exits_snoc:
  "exits j (h @ [a]) = exits j h + (case a of Left k how v \<Rightarrow> if k = j then 1 else 0 | _ \<Rightarrow> 0)"
  by (simp add: exits_def split: action.splits)

lemma leftAtZero_snoc:
  "leftAtZero j (h @ [a])
     = (leftAtZero j h \<or> (case a of Left k how v \<Rightarrow> k = j \<and> v = 0 | _ \<Rightarrow> False))"
  by (simp add: leftAtZero_def)

lemma length_pcs_step: "length (pcs (step x F)) = length (pcs F)"
  by (simp add: step_def Let_def exitScan_def split: pc.splits prod.splits)

lemma start_invariant: "fleetInvariant (start skip n)"
  by (simp add: fleetInvariant_def start_def running_def entries_def exits_def)

lemma step_invariant:
  assumes inv: "fleetInvariant F"
  shows "fleetInvariant (step x F)"
proof (cases "length (pcs F) \<le> fst x")
  case True
  then show ?thesis using inv by (simp add: step_def Let_def)
next
  case False
  then have i: "fst x < length (pcs F)" by simp
  show ?thesis
  proof (cases "pcs F ! fst x")
    case Ready
    have r: "running ((pcs F)[fst x := Running]) = running (pcs F) + 1"
      using running_update[OF i, of Running] Ready by simp
    show ?thesis using inv i Ready r
      by (auto simp: fleetInvariant_def step_def Let_def enterScan_def entries_snoc exits_snoc
          leftAtZero_snoc nth_list_update)
  next
    case Running
    have r: "running ((pcs F)[fst x := v]) + 1 = running (pcs F)" if "v \<noteq> Running" for v
      using running_update[OF i, of v] Running that by simp
    have w: "(word_of_nat (running (pcs F)) :: 32 word) - 1
               = word_of_nat (running ((pcs F)[fst x := v]))"
      if "v \<noteq> Running" for v
      using r[OF that] by (metis add_diff_cancel_right' of_nat_1 of_nat_add)
    show ?thesis using inv i Running w[of Cleaning] w[of Done]
      by (auto simp: fleetInvariant_def step_def Let_def exitScan_def entries_snoc exits_snoc
          leftAtZero_snoc nth_list_update)
  next
    case Cleaning
    have r: "running ((pcs F)[fst x := Done]) = running (pcs F)"
      using running_update[OF i, of Done] Cleaning by simp
    show ?thesis using inv i Cleaning r
      by (auto simp: fleetInvariant_def step_def Let_def entries_snoc exits_snoc
          leftAtZero_snoc nth_list_update)
  next
    case Done
    then show ?thesis using inv i by (simp add: step_def Let_def)
  qed
qed

lemma run_invariant: "fleetInvariant F \<Longrightarrow> fleetInvariant (run sched F)"
  by (induction sched arbitrary: F) (simp_all add: step_invariant)

lemma length_pcs_run: "length (pcs (run sched F)) = length (pcs F)"
  by (induction sched arbitrary: F) (simp_all add: length_pcs_step)

lemma running_zero: "\<forall>p\<in>set ps. p \<noteq> Running \<Longrightarrow> running ps = 0"
  by (simp add: running_def)

lemma sint_small: "k < 2 ^ 31 \<Longrightarrow> sint (word_of_nat k :: 32 word) = int k"
proof -
  assume "k < 2 ^ 31"
  then have "int k < 2 ^ 31" by (metis of_nat_less_iff of_nat_numeral of_nat_power)
  moreover have "- (2 ^ 31) \<le> int k" by simp
  ultimately show ?thesis
    by (simp add: signed_of_nat signed_take_bit_int_eq_self)
qed

lemma step_other: "fst x \<noteq> i \<Longrightarrow> pcs (step x F) ! i = pcs F ! i"
  by (simp add: step_def Let_def exitScan_def split: pc.splits prod.splits)

lemma run_others: "\<forall>x\<in>set others. fst x \<noteq> i \<Longrightarrow> pcs (run others F) ! i = pcs F ! i"
  by (induction others arbitrary: F) (simp_all add: step_other)

lemma runSourceScanInsecure_duringScan:
  "runSourceScanInsecure (W\<lparr>duringScan := d\<rparr>) s stats = runSourceScanInsecure W s stats"
  by (simp add: runSourceScanInsecure_def Let_def cong: option.case_cong if_cong)

lemma scanBody_duringScan: "scanBody (W\<lparr>duringScan := d\<rparr>) s mode stats = scanBody W s mode stats"
  by (simp add: scanBody_def runScanModuleInsecure_def runSourceScanInsecure_duringScan
           cong: option.case_cong outcome.case_cong prod.case_cong)

lemma doScan_counter:
  "activeScans (snd (snd (doScan modulePath version G f)))
     = activeScans (snd (f (G\<lparr>activeScans := activeScans G + 1\<rparr>))) - 1
   \<and> (EvCleanGoCaches \<in> set (fst (snd (doScan modulePath version G f)))
        \<longleftrightarrow> activeScans (snd (snd (doScan modulePath version G f))) = 0)"
  by (simp add: doScan_def Let_def enterScan_def exitScan_def split: prod.splits)

lemma runScanModule_counter:
  assumes body: "scanBody W s mode stats = Some (r, stats')"
  shows "\<exists>res tr G'. runScanModule W s mode G stats = Some (res, tr, stats', G')
     \<and> activeScans G' = activeScans (duringScan W (G\<lparr>activeScans := activeScans G + 1\<rparr>)) - 1
     \<and> (EvCleanGoCaches \<in> set tr \<longleftrightarrow> activeScans G' = 0)"
  by (simp add: runScanModule_def body Let_def enterScan_def exitScan_def)

lemma entered_scan:
  assumes i: "i < length (pcs F)" and ready: "pcs F ! i = Ready"
  shows "step (i, how) F
     = F\<lparr>shared := enterScan (shared F), pcs := (pcs F)[i := Running],
         history := history F @ [Entered i]\<rparr>"
  using i ready by (simp add: step_def Let_def)

lemma left_scan:
  assumes i: "i < length (pcs F)" and running: "pcs F ! i = Running"
  shows "shared (step (i, how) F) = snd (exitScan (shared F))
     \<and> (pcs (step (i, how) F) ! i = Cleaning \<longleftrightarrow> fst (exitScan (shared F)))"
  using i running by (simp add: step_def Let_def exitScan_def)

lemma fleet_scan:
  assumes i: "i < length (pcs F)" and ready: "pcs F ! i = Ready"
    and others: "\<forall>x\<in>set others. fst x \<noteq> i"
  shows "shared (step (i, how) (run others (step (i, how) F)))
           = snd (exitScan (othersRun F i others (enterScan (shared F))))"
proof -
  let ?F1 = "step (i, how) F"
  let ?F2 = "run others ?F1"
  have F1: "?F1 = F\<lparr>shared := enterScan (shared F), pcs := (pcs F)[i := Running],
                     history := history F @ [Entered i]\<rparr>"
    by (rule entered_scan[OF i ready])
  have len: "i < length (pcs ?F2)" using i by (simp add: length_pcs_run length_pcs_step)
  have "pcs ?F1 ! i = Running" using i by (simp add: F1)
  then have run2: "pcs ?F2 ! i = Running" using run_others[OF others] by simp
  have "shared ?F2 = othersRun F i others (enterScan (shared F))"
    by (simp add: othersRun_def F1)
  with left_scan[OF len run2, of how] show ?thesis by simp
qed

lemma fleet_scan_is_doScan:
  assumes i: "i < length (pcs F)" and ready: "pcs F ! i = Ready"
    and others: "\<forall>x\<in>set others. fst x \<noteq> i"
  shows "shared (step (i, how) (run others (step (i, how) F)))
           = snd (snd (doScan modulePath version (shared F)
                         (\<lambda>G1. (how, othersRun F i others G1))))"
  using fleet_scan[OF i ready others, of how]
  by (simp add: doScan_def Let_def split: prod.splits)

lemma fleet_scan_is_runScanModule:
  assumes i: "i < length (pcs F)" and ready: "pcs F ! i = Ready"
    and others: "\<forall>x\<in>set others. fst x \<noteq> i"
    and body: "scanBody W s mode stats = Some (r, stats')"
  shows "\<exists>res tr. runScanModule (W\<lparr>duringScan := othersRun F i others\<rparr>) s mode (shared F) stats
           = Some (res, tr, stats',
                   shared (step (i, ending r) (run others (step (i, ending r) F))))"
  using fleet_scan[OF i ready others, of "ending r"]
  by (simp add: runScanModule_def scanBody_duringScan body Let_def split: prod.splits)

lemma fleet_counter:
  "let R = run sched (start skip n) in
      activeScans (shared R) = word_of_nat (running (pcs R))
      \<and> (running (pcs R) < 2 ^ 31 \<longrightarrow> sint (activeScans (shared R)) = int (running (pcs R)))
      \<and> ((\<forall>p\<in>set (pcs R). p \<noteq> Running) \<longrightarrow> activeScans (shared R) = 0)
      \<and> (\<forall>j<n. entries j (history R) = (if pcs R ! j = Ready then 0 else 1)
                \<and> exits j (history R) = (if pcs R ! j = Cleaning \<or> pcs R ! j = Done then 1 else 0))
      \<and> (\<forall>j. Cleaned j \<in> set (history R) \<longrightarrow> leftAtZero j (history R))"
proof -
  define R where "R = run sched (start skip n)"
  have inv: "fleetInvariant R"
    unfolding R_def by (rule run_invariant[OF start_invariant])
  have len: "length (pcs R) = n"
    unfolding R_def by (simp add: length_pcs_run start_def)
  have c: "activeScans (shared R) = word_of_nat (running (pcs R))"
    using inv by (simp add: fleetInvariant_def)
  have s: "sint (activeScans (shared R)) = int (running (pcs R))" if "running (pcs R) < 2 ^ 31"
    using sint_small[OF that] c by simp
  have z: "activeScans (shared R) = 0" if "\<forall>p\<in>set (pcs R). p \<noteq> Running"
    using c running_zero[OF that] by simp
  have e: "\<forall>j<n. entries j (history R) = (if pcs R ! j = Ready then 0 else 1)
                \<and> exits j (history R) = (if pcs R ! j = Cleaning \<or> pcs R ! j = Done then 1 else 0)"
    using inv len by (simp add: fleetInvariant_def)
  have cl: "\<forall>j. Cleaned j \<in> set (history R) \<longrightarrow> leftAtZero j (history R)"
    using inv by (simp add: fleetInvariant_def)
  from c s z e cl show ?thesis unfolding R_def[symmetric] Let_def by simp
qed

text \<open>
  C2. A call of \<open>doScan\<close> hands its body the counter incremented by one and leaves the
  counter one below what the body and the scans that ran meanwhile left, whether the body
  returns, fails (as it does when the memory monitor cancels) or panics; it cleans the
  caches exactly if that decrement made the counter zero. The same holds of every call of
  \<open>runScanModule\<close> whose body ends, and such a call returns. The scan of a fleet is such
  a call: when scan \<open>i\<close> enters, the others take any steps and scan \<open>i\<close> leaves, the
  counter is what \<open>doScan\<close>, and \<open>runScanModule\<close>, leave when the others run during
  their body. For scans that run concurrently, after any interleaving of their steps: the
  counter is the number of scans in flight, as a signed 32-bit number it is that number
  and so not negative while fewer than \<open>2 ^ 31\<close> scans are in flight, and it is zero
  when none is; every scan that has started has incremented the counter once, every scan
  that has ended has decremented it once, however it ended; and the caches are cleaned
  only by a scan whose decrement brought the counter to zero.
\<close>

theorem active_scans_counter:
  "(activeScans (snd (snd (doScan modulePath version G f)))
       = activeScans (snd (f (G\<lparr>activeScans := activeScans G + 1\<rparr>))) - 1
      \<and> (EvCleanGoCaches \<in> set (fst (snd (doScan modulePath version G f)))
           \<longleftrightarrow> activeScans (snd (snd (doScan modulePath version G f))) = 0))
   \<and> (scanBody W s mode stats = Some (r, stats') \<longrightarrow>
        (\<exists>res tr G'. runScanModule W s mode G stats = Some (res, tr, stats', G')
           \<and> activeScans G'
               = activeScans (duringScan W (G\<lparr>activeScans := activeScans G + 1\<rparr>)) - 1
           \<and> (EvCleanGoCaches \<in> set tr \<longleftrightarrow> activeScans G' = 0)))
   \<and> (i < length (pcs F) \<and> pcs F ! i = Ready \<and> (\<forall>x\<in>set others. fst x \<noteq> i) \<longrightarrow>
        shared (step (i, how) (run others (step (i, how) F)))
          = snd (snd (doScan modulePath version (shared F)
                        (\<lambda>G1. (how, othersRun F i others G1))))
        \<and> (scanBody W s mode stats = Some (r, stats') \<longrightarrow>
             (\<exists>res tr. runScanModule (W\<lparr>duringScan := othersRun F i others\<rparr>) s mode
                          (shared F) stats
                 = Some (res, tr, stats',
                         shared (step (i, ending r) (run others (step (i, ending r) F)))))))
   \<and> (let R = run sched (start skip n) in
        activeScans (shared R) = word_of_nat (running (pcs R))
        \<and> (running (pcs R) < 2 ^ 31 \<longrightarrow> sint (activeScans (shared R)) = int (running (pcs R)))
        \<and> ((\<forall>p\<in>set (pcs R). p \<noteq> Running) \<longrightarrow> activeScans (shared R) = 0)
        \<and> (\<forall>j<n. entries j (history R) = (if pcs R ! j = Ready then 0 else 1)
                  \<and> exits j (history R)
                      = (if pcs R ! j = Cleaning \<or> pcs R ! j = Done then 1 else 0))
        \<and> (\<forall>j. Cleaned j \<in> set (history R) \<longrightarrow> leftAtZero j (history R)))"
proof -
  note a = doScan_counter[of modulePath version G f]
  have b: "scanBody W s mode stats = Some (r, stats') \<longrightarrow>
        (\<exists>res tr G'. runScanModule W s mode G stats = Some (res, tr, stats', G')
           \<and> activeScans G'
               = activeScans (duringScan W (G\<lparr>activeScans := activeScans G + 1\<rparr>)) - 1
           \<and> (EvCleanGoCaches \<in> set tr \<longleftrightarrow> activeScans G' = 0))"
    using runScanModule_counter by blast
  have c: "i < length (pcs F) \<and> pcs F ! i = Ready \<and> (\<forall>x\<in>set others. fst x \<noteq> i) \<longrightarrow>
        shared (step (i, how) (run others (step (i, how) F)))
          = snd (snd (doScan modulePath version (shared F)
                        (\<lambda>G1. (how, othersRun F i others G1))))
        \<and> (scanBody W s mode stats = Some (r, stats') \<longrightarrow>
             (\<exists>res tr. runScanModule (W\<lparr>duringScan := othersRun F i others\<rparr>) s mode
                          (shared F) stats
                 = Some (res, tr, stats',
                         shared (step (i, ending r) (run others (step (i, ending r) F))))))"
    using fleet_scan_is_doScan fleet_scan_is_runScanModule by blast
  note d = fleet_counter[of sched skip n]
  from a b c d show ?thesis by blast
qed

lemma threeScans_run:
  "history (run threeScans (start shouldSkip_declared 3))
     = [Entered 0, Entered 1, Left 0 (Panicked ''boom'') 1, Entered 2,
        Left 1 (Failed (ErrSentinel ScanModuleMemoryLimitExceeded)) 1,
        Left 2 (Returned ()) 0, Cleaned 2]
   \<and> pcs (run threeScans (start shouldSkip_declared 3)) = [Done, Done, Done]"
  by (simp add: threeScans_def start_def step_def Let_def enterScan_def exitScan_def
      eval_nat_numeral)

lemma panicking_scan_body:
  "scanBody (quietWorld\<lparr>runScanModuleSandbox := Panicked ''boom''\<rparr>) quietScanner ''VTA''
       \<lparr>scanMemory = 0, pkgsMemory = 0\<rparr>
     = Some (Panicked ''boom'', \<lparr>scanMemory = 0, pkgsMemory = 0\<rparr>)"
  by (simp add: scanBody_def quietWorld_def quietScanner_def)

theorem active_scans_counter_witness:
  "doScan ''mod'' ''v1.2.3'' quietGlobals
       (\<lambda>G1. (Panicked ''boom'', othersRun (start shouldSkip_declared 2) 0 [] G1))
     = (Some (ErrPrefix ''scan(\"mod\", \"v1.2.3\")''
                (ErrWrapHead ScanModulePanicError ''boom'')),
        [EvCleanGoCaches], quietGlobals)
   \<and> doScan ''mod'' ''v1.2.3'' quietGlobals
       (\<lambda>G1. (Panicked ''boom'',
               othersRun (start shouldSkip_declared 2) 0 [(1, Returned ())] G1))
     = (Some (ErrPrefix ''scan(\"mod\", \"v1.2.3\")''
                (ErrWrapHead ScanModulePanicError ''boom'')),
        [], \<lparr>shouldSkip = shouldSkip_declared, activeScans = 1\<rparr>)
   \<and> runScanModule
       (quietWorld\<lparr>runScanModuleSandbox := Panicked ''boom'',
                    duringScan := othersRun (start shouldSkip_declared 2) 0 [(1, Returned ())]\<rparr>)
       quietScanner ''VTA'' quietGlobals \<lparr>scanMemory = 0, pkgsMemory = 0\<rparr>
     = Some (([], Some (ErrWrapHead ScanModulePanicError ''boom'')),
             [EvAnalyze False ''VTA''],
             \<lparr>scanMemory = 0, pkgsMemory = 0\<rparr>,
             \<lparr>shouldSkip = shouldSkip_declared, activeScans = 1\<rparr>)
   \<and> shared (step (0, Panicked ''boom'')
               (run [(1, Returned ())]
                  (step (0, Panicked ''boom'') (start shouldSkip_declared 2))))
     = \<lparr>shouldSkip = shouldSkip_declared, activeScans = 1\<rparr>
   \<and> history (run threeScans (start shouldSkip_declared 3))
     = [Entered 0, Entered 1, Left 0 (Panicked ''boom'') 1, Entered 2,
        Left 1 (Failed (ErrSentinel ScanModuleMemoryLimitExceeded)) 1,
        Left 2 (Returned ()) 0, Cleaned 2]
   \<and> activeScans (shared (run threeScans (start shouldSkip_declared 3))) = 0
   \<and> sint (activeScans (shared (run threeScans (start shouldSkip_declared 3)))) = 0
   \<and> entries 1 (history (run threeScans (start shouldSkip_declared 3))) = 1
   \<and> exits 1 (history (run threeScans (start shouldSkip_declared 3))) = 1
   \<and> leftAtZero 2 (history (run threeScans (start shouldSkip_declared 3)))"
proof -
  let ?F = "start shouldSkip_declared 2"
  let ?W = "quietWorld\<lparr>runScanModuleSandbox := Panicked ''boom''\<rparr>"
  let ?stats = "\<lparr>scanMemory = 0, pkgsMemory = 0\<rparr>"
  let ?R = "run threeScans (start shouldSkip_declared 3)"
  have i: "0 < length (pcs ?F) \<and> pcs ?F ! 0 = Ready
             \<and> (\<forall>x\<in>set [(1, Returned ())]. fst x \<noteq> (0::nat))"
    by (simp add: start_def)
  have sh: "shared ?F = quietGlobals" by (simp add: start_def quietGlobals_def)
  have o1: "othersRun ?F 0 [(1, Returned ())] (enterScan quietGlobals)
              = \<lparr>shouldSkip = shouldSkip_declared, activeScans = 2\<rparr>"
    by (simp add: start_def step_def Let_def enterScan_def othersRun_def quietGlobals_def)
  have o0: "othersRun ?F 0 [] (enterScan quietGlobals)
              = \<lparr>shouldSkip = shouldSkip_declared, activeScans = 1\<rparr>"
    by (simp add: start_def enterScan_def othersRun_def quietGlobals_def)
  have x2: "exitScan \<lparr>shouldSkip = shouldSkip_declared, activeScans = 2\<rparr>
              = (False, \<lparr>shouldSkip = shouldSkip_declared, activeScans = 1\<rparr>)"
    by (simp add: exitScan_def)
  have x1: "exitScan \<lparr>shouldSkip = shouldSkip_declared, activeScans = 1\<rparr>
              = (True, quietGlobals)"
    by (simp add: exitScan_def quietGlobals_def)
  have first: "doScan ''mod'' ''v1.2.3'' quietGlobals
       (\<lambda>G1. (Panicked ''boom'', othersRun ?F 0 [] G1))
     = (Some (ErrPrefix ''scan(\"mod\", \"v1.2.3\")''
                (ErrWrapHead ScanModulePanicError ''boom'')),
        [EvCleanGoCaches], quietGlobals)"
    by (simp add: doScan_def Let_def Wrap_def o0 x1)
  have second: "doScan ''mod'' ''v1.2.3'' quietGlobals
       (\<lambda>G1. (Panicked ''boom'', othersRun ?F 0 [(1, Returned ())] G1))
     = (Some (ErrPrefix ''scan(\"mod\", \"v1.2.3\")''
                (ErrWrapHead ScanModulePanicError ''boom'')),
        [], \<lparr>shouldSkip = shouldSkip_declared, activeScans = 1\<rparr>)"
    by (simp add: doScan_def Let_def Wrap_def o1 x2 del: One_nat_def)
  note t = active_scans_counter[where modulePath = "''mod''" and version = "''v1.2.3''"
      and G = quietGlobals
      and f = "\<lambda>G1. (Panicked ''boom'', othersRun ?F 0 [(1, Returned ())] G1)"
      and W = ?W and s = quietScanner and mode = "''VTA''" and stats = ?stats
      and r = "Panicked ''boom''" and stats' = ?stats and i = 0 and F = ?F
      and others = "[(1, Returned ())]" and how = "Panicked ''boom''"
      and sched = threeScans and skip = shouldSkip_declared and n = 3]
  from t i have tie: "shared (step (0, Panicked ''boom'')
               (run [(1, Returned ())] (step (0, Panicked ''boom'') ?F)))
          = snd (snd (doScan ''mod'' ''v1.2.3'' (shared ?F)
                        (\<lambda>G1. (Panicked ''boom'', othersRun ?F 0 [(1, Returned ())] G1))))"
    by blast
  have fourth: "shared (step (0, Panicked ''boom'')
               (run [(1, Returned ())] (step (0, Panicked ''boom'') ?F)))
          = \<lparr>shouldSkip = shouldSkip_declared, activeScans = 1\<rparr>"
    unfolding tie sh second by simp
  have third: "runScanModule
       (quietWorld\<lparr>runScanModuleSandbox := Panicked ''boom'',
                    duringScan := othersRun ?F 0 [(1, Returned ())]\<rparr>)
       quietScanner ''VTA'' quietGlobals ?stats
     = Some (([], Some (ErrWrapHead ScanModulePanicError ''boom'')),
             [EvAnalyze False ''VTA''], ?stats,
             \<lparr>shouldSkip = shouldSkip_declared, activeScans = 1\<rparr>)"
    by (simp add: runScanModule_def scanBody_def Let_def o1 x2 quietWorld_def quietScanner_def
        del: One_nat_def)
  from t have fleet: "activeScans (shared ?R) = word_of_nat (running (pcs ?R))
        \<and> (running (pcs ?R) < 2 ^ 31 \<longrightarrow> sint (activeScans (shared ?R)) = int (running (pcs ?R)))
        \<and> ((\<forall>p\<in>set (pcs ?R). p \<noteq> Running) \<longrightarrow> activeScans (shared ?R) = 0)
        \<and> (\<forall>j<3. entries j (history ?R) = (if pcs ?R ! j = Ready then 0 else 1)
                  \<and> exits j (history ?R)
                      = (if pcs ?R ! j = Cleaning \<or> pcs ?R ! j = Done then 1 else 0))
        \<and> (\<forall>j. Cleaned j \<in> set (history ?R) \<longrightarrow> leftAtZero j (history ?R))"
    unfolding Let_def by blast
  have h: "history ?R
     = [Entered 0, Entered 1, Left 0 (Panicked ''boom'') 1, Entered 2,
        Left 1 (Failed (ErrSentinel ScanModuleMemoryLimitExceeded)) 1,
        Left 2 (Returned ()) 0, Cleaned 2]"
    and p: "pcs ?R = [Done, Done, Done]"
    using threeScans_run by simp_all
  have r: "running (pcs ?R) = 0" by (simp add: p running_def)
  have z: "activeScans (shared ?R) = 0" using fleet r by simp
  have sz: "sint (activeScans (shared ?R)) = 0" using z by simp
  have "(1::nat) < 3" by simp
  with fleet have "entries 1 (history ?R) = (if pcs ?R ! 1 = Ready then 0 else 1)
      \<and> exits 1 (history ?R) = (if pcs ?R ! 1 = Cleaning \<or> pcs ?R ! 1 = Done then 1 else 0)"
    by blast
  then have en: "entries 1 (history ?R) = 1" and ex: "exits 1 (history ?R) = 1"
    by (simp_all add: p)
  have "Cleaned 2 \<in> set (history ?R)" unfolding h by simp
  with fleet have l: "leftAtZero 2 (history ?R)" by blast
  from first second third fourth h z sz en ex l show ?thesis by blast
qed

subsection \<open>The enqueue planner\<close>

lemma planModes_all:
  assumes bins: "ModeBinary \<in> set modes \<Longrightarrow> readBinaries P bucket = Inr binaries"
    and mods: "\<exists>mode\<in>set modes. mode \<noteq> ModeBinary \<Longrightarrow> readModules P = Inr modspecs"
    and cache: "cached = [] \<or> cached = modspecs"
  shows "planModes P bucket modes tasks cached
       = Inr (tasks @ concat (map (\<lambda>mode. filter (\<lambda>req. Module req \<noteq> ''std'')
                                       (requestsFor binaries modspecs mode)) modes))"
  using assms
proof (induction modes arbitrary: tasks cached)
  case Nil
  then show ?case by simp
next
  case (Cons mode modes)
  have bins': "ModeBinary \<in> set modes \<Longrightarrow> readBinaries P bucket = Inr binaries"
    using Cons.prems(1) by simp
  have mods': "\<exists>mode\<in>set modes. mode \<noteq> ModeBinary \<Longrightarrow> readModules P = Inr modspecs"
    using Cons.prems(2) by auto
  show ?case
  proof (cases "mode = ModeBinary")
    case True
    then have "readBinaries P bucket = Inr binaries" using Cons.prems(1) by simp
    then show ?thesis using Cons.IH[OF bins' mods' Cons.prems(3)] True
      by (simp add: requestsFor_def)
  next
    case False
    then have rm: "readModules P = Inr modspecs" using Cons.prems(2) by auto
    show ?thesis
    proof (cases "cached = []")
      case True
      have "modspecs = [] \<or> modspecs = modspecs" by simp
      from Cons.IH[OF bins' mods' this] True False rm show ?thesis
        by (simp add: requestsFor_def)
    next
      case nonempty: False
      with Cons.prems(3) have c: "cached = modspecs" by simp
      from Cons.IH[OF bins' mods' Cons.prems(3)] False nonempty c show ?thesis
        by (simp add: requestsFor_def)
    qed
  qed
qed

text \<open>
  C9, as the code has it. When the reads it needs succeed (the binaries if \<open>BINARY\<close> is
  among the modes, the module population if another mode is),
  \<open>createVulncheckQueueTasks\<close> returns, mode after mode in the order given, one task
  for each request of that mode whose module path is not \<open>std\<close>, each as often as it
  is listed: nothing else is dropped.
\<close>

theorem plan_emits_every_request:
  assumes bins: "ModeBinary \<in> set modes \<Longrightarrow> readBinaries P bucket = Inr binaries"
    and mods: "\<exists>mode\<in>set modes. mode \<noteq> ModeBinary \<Longrightarrow> readModules P = Inr modspecs"
  shows "createVulncheckQueueTasks P bucket modes
       = Inr (concat (map (\<lambda>mode. filter (\<lambda>req. Module req \<noteq> ''std'')
                                       (requestsFor binaries modspecs mode)) modes))"
proof -
  have "[] = [] \<or> [] = modspecs" by simp
  from planModes_all[OF bins mods this, where tasks="[]"] show ?thesis
    by (simp add: createVulncheckQueueTasks_def wrapResult_def)
qed

theorem plan_emits_every_request_witness:
  "createVulncheckQueueTasks twiceListedWorld '''' [ModeBinary, ModeImports, ModeVTA]
     = Inr [modTask ModeImports, modTask ModeImports, modTask ModeVTA, modTask ModeVTA]"
proof -
  have bins: "readBinaries twiceListedWorld '''' = Inr []"
    by (simp add: readBinaries_def wrapResult_def)
  have mods: "readModules twiceListedWorld
     = Inr [\<lparr>Path = ''std'', Version_ms = ''v1.20.0'', ImportedBy_ms = 9\<rparr>,
            \<lparr>Path = ''mod'', Version_ms = ''v1.2.3'', ImportedBy_ms = 12\<rparr>,
            \<lparr>Path = ''mod'', Version_ms = ''v1.2.3'', ImportedBy_ms = 12\<rparr>]"
    by (simp add: twiceListedWorld_def)
  from plan_emits_every_request[OF bins mods, of "[ModeBinary, ModeImports, ModeVTA]"]
  show ?thesis
    by (simp add: requestsFor_def moduleSpecsToScanRequests_def modTask_def
        ModeImports_def ModeVTA_def ModeBinary_def)
qed

text \<open>
  C9 as stated fails. The population lists \<open>mod@v1.2.3\<close> twice; the planner emits two
  descriptors for the mode \<open>VTA\<close>, and they have the same module path and version, so
  the same task identifier.
\<close>

theorem plan_keeps_duplicates:
  "createVulncheckQueueTasks twiceListedWorld '''' [ModeVTA]
     = Inr [modTask ModeVTA, modTask ModeVTA]
   \<and> \<not> distinct (map taskIDArguments [modTask ModeVTA, modTask ModeVTA])"
  by (simp add: createVulncheckQueueTasks_def wrapResult_def twiceListedWorld_def
      moduleSpecsToScanRequests_def modTask_def ModeVTA_def ModeBinary_def)

subsection \<open>The task URL\<close>

lemma splitOn_nonempty: "splitOn c s \<noteq> []"
  by (induction s) (simp_all split: list.splits)

lemma splitOn_length: "length (splitOn c s) = Suc (length (filter (\<lambda>x. x = c) s))"
proof (induction s)
  case Nil
  then show ?case by simp
next
  case (Cons x xs)
  then show ?case using splitOn_nonempty[of c xs]
    by (cases "splitOn c xs") auto
qed

lemma splitOn_none: "c \<notin> set a \<Longrightarrow> splitOn c a = [a]"
  by (induction a) auto

lemma splitOn_append: "c \<notin> set a \<Longrightarrow> splitOn c (a @ c # b) = a # splitOn c b"
  using splitOn_nonempty[of c b]
  by (induction a) (auto split: list.splits)

lemma splitOn_three:
  assumes "c \<notin> set p1" "c \<notin> set p2" "c \<notin> set p3"
  shows "splitOn c (p1 @ c # (p2 @ c # p3)) = [p1, p2, p3]"
  by (simp only: splitOn_append[OF assms(1)] splitOn_append[OF assms(2)] splitOn_none[OF assms(3)])

lemma splitOn_three_or_more: "3 \<le> length (splitOn c (C @ p1 @ c # (p2 @ c # p3)))"
  unfolding splitOn_length by simp

lemma queryParameters_nonempty:
  "queryString url \<noteq> [] \<Longrightarrow> queryParameters url = splitOn (CHR ''&'') (queryString url)"
  by (simp add: queryParameters_def)

lemma queryString_tail: "\<exists>C. queryString (A @ CHR ''?'' # B) = C @ B"
proof (induction A)
  case Nil
  show ?case by (simp add: queryString_def)
next
  case (Cons a A)
  show ?case
  proof (cases "a = CHR ''?''")
    case True
    have "queryString ((a # A) @ CHR ''?'' # B) = (A @ [CHR ''?'']) @ B"
      using True by (simp add: queryString_def)
    then show ?thesis by blast
  next
    case False
    then have "queryString ((a # A) @ CHR ''?'' # B) = queryString (A @ CHR ''?'' # B)"
      by (simp add: queryString_def)
    with Cons show ?thesis by simp
  qed
qed

lemma queryString_first: "CHR ''?'' \<notin> set A \<Longrightarrow> queryString (A @ CHR ''?'' # B) = B"
  by (induction A) (auto simp: queryString_def)

lemma showNat_digits: "set (showNat n) \<subseteq> set ''0123456789''"
proof (induction n rule: showNat.induct)
  case (1 n)
  have d: "\<And>k. k < 10 \<Longrightarrow> ''0123456789'' ! k \<in> set ''0123456789''"
    by (rule nth_mem) simp
  show ?case
  proof (cases "n < 10")
    case True
    have "showNat n = [''0123456789'' ! n]"
      using True by (subst showNat.simps) (simp del: showNat.simps)
    then show ?thesis using d[OF True] by (simp del: showNat.simps)
  next
    case False
    have "n mod 10 < 10" by simp
    note last = d[OF this]
    have "showNat n = showNat (n div 10) @ [''0123456789'' ! (n mod 10)]"
      using False by (subst showNat.simps) (simp del: showNat.simps)
    then show ?thesis using last 1[OF False] by (simp del: showNat.simps)
  qed
qed

lemma showInt_no_amp: "CHR ''&'' \<notin> set (showInt i)"
proof -
  have "CHR ''&'' \<notin> set ''0123456789''" by simp
  then have "\<And>n. CHR ''&'' \<notin> set (showNat n)" using showNat_digits by blast
  then show ?thesis by (simp add: showInt_def del: showNat.simps)
qed

lemma showBool_no_amp: "CHR ''&'' \<notin> set (showBool b)"
  by (simp add: showBool_def)

lemma taskURL_parts:
  "taskURL queueURL (opts\<lparr>DisableProxyFetch := True\<rparr>) sreq
     = (queueURL @ ''/'' @ Namespace opts @ ''/scan/'' @ Module sreq @ ''/@v/'' @ Version sreq)
       @ CHR ''?'' # ((''importedby='' @ showInt (ImportedBy sreq))
                      @ CHR ''&'' # ((''mode='' @ Mode sreq)
                      @ CHR ''&'' # (''insecure='' @ showBool (Insecure sreq) @ ''?proxyfetch=off'')))"
  by (simp add: taskURL_def)

lemma taskURL_three_parameters:
  "3 \<le> length (queryParameters (taskURL queueURL (opts\<lparr>DisableProxyFetch := True\<rparr>) sreq))"
proof -
  let ?p1 = "''importedby='' @ showInt (ImportedBy sreq)"
  let ?p2 = "''mode='' @ Mode sreq"
  let ?p3 = "''insecure='' @ showBool (Insecure sreq) @ ''?proxyfetch=off''"
  let ?B = "?p1 @ CHR ''&'' # (?p2 @ CHR ''&'' # ?p3)"
  obtain C where
    q: "queryString (taskURL queueURL (opts\<lparr>DisableProxyFetch := True\<rparr>) sreq) = C @ ?B"
    unfolding taskURL_parts using queryString_tail by blast
  have ne: "C @ ?B \<noteq> []" by (simp del: showNat.simps)
  have "queryParameters (taskURL queueURL (opts\<lparr>DisableProxyFetch := True\<rparr>) sreq)
          = splitOn (CHR ''&'') (C @ ?B)"
    using queryParameters_nonempty ne q by metis
  then show ?thesis using splitOn_three_or_more[of "CHR ''&''" C ?p1 ?p2 ?p3] by (simp only:)
qed

lemma taskURL_parameters:
  assumes path: "CHR ''?'' \<notin> set (queueURL @ Namespace opts @ Module sreq @ Version sreq)"
    and mode: "CHR ''&'' \<notin> set (Mode sreq)"
  shows "queryParameters (taskURL queueURL (opts\<lparr>DisableProxyFetch := True\<rparr>) sreq)
           = [''importedby='' @ showInt (ImportedBy sreq), ''mode='' @ Mode sreq,
              ''insecure='' @ showBool (Insecure sreq) @ ''?proxyfetch=off'']"
proof -
  let ?A = "queueURL @ ''/'' @ Namespace opts @ ''/scan/'' @ Module sreq @ ''/@v/'' @ Version sreq"
  let ?p1 = "''importedby='' @ showInt (ImportedBy sreq)"
  let ?p2 = "''mode='' @ Mode sreq"
  let ?p3 = "''insecure='' @ showBool (Insecure sreq) @ ''?proxyfetch=off''"
  let ?B = "?p1 @ CHR ''&'' # (?p2 @ CHR ''&'' # ?p3)"
  have A: "CHR ''?'' \<notin> set ?A" using path by simp
  have q: "queryString (taskURL queueURL (opts\<lparr>DisableProxyFetch := True\<rparr>) sreq) = ?B"
    unfolding taskURL_parts by (rule queryString_first[OF A])
  have ne: "?B \<noteq> []" by (simp del: showNat.simps)
  have n1: "CHR ''&'' \<notin> set ?p1" using showInt_no_amp[of "ImportedBy sreq"] by simp
  have n2: "CHR ''&'' \<notin> set ?p2" using mode by simp
  have n3: "CHR ''&'' \<notin> set ?p3" using showBool_no_amp[of "Insecure sreq"] by simp
  have "queryParameters (taskURL queueURL (opts\<lparr>DisableProxyFetch := True\<rparr>) sreq)
          = splitOn (CHR ''&'') ?B"
    using queryParameters_nonempty ne q by metis
  then show ?thesis using splitOn_three[OF n1 n2 n3] by (simp only:)
qed

lemma taskURL_meets_test:
  "taskURL cfg_QueueURL testOptions testRequest = want_Url
   \<and> taskURL cfg_QueueURL (testOptions\<lparr>DisableProxyFetch := True\<rparr>) testRequest
       = want_Url_DisableProxyFetch"
  by (simp add: taskURL_def cfg_QueueURL_def testOptions_def testRequest_def showInt_def
      showBool_def want_Url_def want_Url_DisableProxyFetch_def)

text \<open>
  C8, as the test has it. With \<open>DisableProxyFetch\<close> set, the URL of a task is the URL
  without the option followed by \<open>?proxyfetch=off\<close>. Its query has at least three
  parameters, so \<open>proxyfetch=off\<close> is never its only parameter. When the queue URL, the
  namespace, the module path and the version hold no \<open>?\<close> and the mode holds no \<open>&\<close>,
  its parameters are \<open>importedby\<close>, \<open>mode\<close> and \<open>insecure\<close>, in this order, and
  \<open>?proxyfetch=off\<close> is the tail of the value of \<open>insecure\<close>.
\<close>

theorem taskURL_proxyfetch_appended:
  "taskURL queueURL (opts\<lparr>DisableProxyFetch := True\<rparr>) sreq
     = taskURL queueURL (opts\<lparr>DisableProxyFetch := False\<rparr>) sreq @ ''?proxyfetch=off''
   \<and> 3 \<le> length (queryParameters (taskURL queueURL (opts\<lparr>DisableProxyFetch := True\<rparr>) sreq))
   \<and> queryParameters (taskURL queueURL (opts\<lparr>DisableProxyFetch := True\<rparr>) sreq)
       \<noteq> [''proxyfetch=off'']
   \<and> (CHR ''?'' \<notin> set (queueURL @ Namespace opts @ Module sreq @ Version sreq)
        \<and> CHR ''&'' \<notin> set (Mode sreq) \<longrightarrow>
        queryParameters (taskURL queueURL (opts\<lparr>DisableProxyFetch := True\<rparr>) sreq)
          = [''importedby='' @ showInt (ImportedBy sreq), ''mode='' @ Mode sreq,
             ''insecure='' @ showBool (Insecure sreq) @ ''?proxyfetch=off''])"
proof -
  have a: "taskURL queueURL (opts\<lparr>DisableProxyFetch := True\<rparr>) sreq
     = taskURL queueURL (opts\<lparr>DisableProxyFetch := False\<rparr>) sreq @ ''?proxyfetch=off''"
    by (simp add: taskURL_def)
  note b = taskURL_three_parameters[of queueURL opts sreq]
  have c: "queryParameters (taskURL queueURL (opts\<lparr>DisableProxyFetch := True\<rparr>) sreq)
       \<noteq> [''proxyfetch=off'']"
  proof
    assume "queryParameters (taskURL queueURL (opts\<lparr>DisableProxyFetch := True\<rparr>) sreq)
              = [''proxyfetch=off'']"
    then have "length (queryParameters (taskURL queueURL (opts\<lparr>DisableProxyFetch := True\<rparr>) sreq)) = 1"
      by simp
    with b show False by simp
  qed
  from a b c taskURL_parameters[of queueURL opts sreq] show ?thesis by blast
qed

theorem taskURL_proxyfetch_appended_witness:
  "CHR ''?'' \<notin> set (cfg_QueueURL @ Namespace testOptions @ Module testRequest @ Version testRequest)
   \<and> CHR ''&'' \<notin> set (Mode testRequest)
   \<and> taskURL cfg_QueueURL (testOptions\<lparr>DisableProxyFetch := False\<rparr>) testRequest = want_Url
   \<and> taskURL cfg_QueueURL (testOptions\<lparr>DisableProxyFetch := True\<rparr>) testRequest
       = want_Url @ ''?proxyfetch=off''
   \<and> queryParameters (taskURL cfg_QueueURL (testOptions\<lparr>DisableProxyFetch := True\<rparr>) testRequest)
       = [''importedby=0'', ''mode=test'', ''insecure=true?proxyfetch=off'']"
proof -
  have path: "CHR ''?'' \<notin> set (cfg_QueueURL @ Namespace testOptions @ Module testRequest
                                  @ Version testRequest)"
    by (simp add: cfg_QueueURL_def testOptions_def testRequest_def)
  have mode: "CHR ''&'' \<notin> set (Mode testRequest)" by (simp add: testRequest_def)
  have plain: "taskURL cfg_QueueURL (testOptions\<lparr>DisableProxyFetch := False\<rparr>) testRequest
                 = want_Url"
    by (simp add: taskURL_def cfg_QueueURL_def testOptions_def testRequest_def showInt_def
        showBool_def want_Url_def)
  have vals: "showInt (ImportedBy testRequest) = ''0'' \<and> Mode testRequest = ''test''
              \<and> showBool (Insecure testRequest) = ''true''"
    by (simp add: testRequest_def showInt_def showBool_def)
  note t = taskURL_proxyfetch_appended[of cfg_QueueURL testOptions testRequest]
  from t plain have flag: "taskURL cfg_QueueURL (testOptions\<lparr>DisableProxyFetch := True\<rparr>) testRequest
       = want_Url @ ''?proxyfetch=off''"
    by simp
  from t path mode
  have "queryParameters (taskURL cfg_QueueURL (testOptions\<lparr>DisableProxyFetch := True\<rparr>) testRequest)
          = [''importedby='' @ showInt (ImportedBy testRequest), ''mode='' @ Mode testRequest,
             ''insecure='' @ showBool (Insecure testRequest) @ ''?proxyfetch=off'']"
    by blast
  then have params:
    "queryParameters (taskURL cfg_QueueURL (testOptions\<lparr>DisableProxyFetch := True\<rparr>) testRequest)
       = [''importedby=0'', ''mode=test'', ''insecure=true?proxyfetch=off'']"
    using vals by simp
  from path mode plain flag params show ?thesis by blast
qed

text \<open>
  C8 as stated fails. The URL that \<open>TestNewTaskRequest\<close> wants with \<open>DisableProxyFetch\<close>
  set, which is the URL of the request of the test, has a query of three parameters,
  \<open>importedby\<close>, \<open>mode\<close> and \<open>insecure\<close>: \<open>proxyfetch=off\<close> is not its only parameter,
  it is the tail of the value of the last.
\<close>

theorem taskURL_keeps_other_parameters:
  "taskURL cfg_QueueURL (testOptions\<lparr>DisableProxyFetch := True\<rparr>) testRequest
     = want_Url_DisableProxyFetch
   \<and> queryParameters want_Url_DisableProxyFetch
     = [''importedby=0'', ''mode=test'', ''insecure=true?proxyfetch=off'']
   \<and> queryParameters want_Url_DisableProxyFetch \<noteq> [''proxyfetch=off'']"
  by (simp add: taskURL_def cfg_QueueURL_def testOptions_def testRequest_def showInt_def
      showBool_def want_Url_def want_Url_DisableProxyFetch_def queryParameters_def
      queryString_def)

end
